theory Spec2Isabelle
  imports Complex_Main "HOL-Library.Word" "HOL-Library.Signed_Division" "HOL-Library.AList"
begin

unbundle bit_operations_syntax

section \<open>Data model of the animation scene\<close>

text \<open>
  The embedding follows \<^verbatim>\<open>src/animation/animation_scene.cpp\<close> (struct
  \<^verbatim>\<open>AnimationSceneImpl\<close>). A C++ \<^verbatim>\<open>float\<close> is read as a real number, so
  rounding is outside the model; \<^verbatim>\<open>u8\<close> and \<^verbatim>\<open>u32\<close> are machine words. A pointer
  that may be null is an \<open>option\<close>. Behaviour that C++ leaves undefined (a null
  dereference, an index outside an array, a remainder by zero, a float outside the
  range of \<^verbatim>\<open>int\<close> converted to it), a failed \<^verbatim>\<open>ASSERT\<close> and a recursion that
  does not end are values of type \<open>error\<close>.
\<close>

type_synonym u8 = "8 word"
type_synonym u32 = "32 word"

text \<open>\<^verbatim>\<open>EntityRef\<close> wraps one 32-bit index.\<close>

type_synonym EntityRef = "32 word"

datatype error =
  NullPointer | OutOfBounds | KeyNotFound | DivisionByZero | Overflow | AssertionFailed
  | NoReturn

text \<open>The four component types the scene names, and any other one by its name.\<close>

datatype ComponentType =
  MODEL_INSTANCE_TYPE | ANIMABLE_TYPE | PROPERTY_ANIMATOR_TYPE | ANIMATOR_TYPE
  | OtherComponent string

datatype Vec3 = Vec3 (vx: real) (vy: real) (vz: real)

datatype Quat = Quat (qx: real) (qy: real) (qz: real) (qw: real)

record LocalRigidTransform =
  pos :: Vec3
  rot :: Quat

text \<open>
  Modelled from the spec: the operations of \<^verbatim>\<open>Vec3\<close>, \<^verbatim>\<open>Quat\<close> and
  \<^verbatim>\<open>LocalRigidTransform\<close> (the math header is not among the sources). Vectors add,
  subtract and scale by components; \<open>normalized\<close> scales by the inverse of the
  length; rotations compose by the quaternion product and rotate a vector by
  conjugation; rigid transforms compose and invert as rotations with translations.
\<close>

instantiation Vec3 :: "{zero, plus, minus, uminus}"
begin

definition zero_Vec3 :: Vec3 where
  "zero_Vec3 = Vec3 0 0 0"

definition plus_Vec3 :: "Vec3 \<Rightarrow> Vec3 \<Rightarrow> Vec3" where
  "plus_Vec3 a b = Vec3 (vx a + vx b) (vy a + vy b) (vz a + vz b)"

definition minus_Vec3 :: "Vec3 \<Rightarrow> Vec3 \<Rightarrow> Vec3" where
  "minus_Vec3 a b = Vec3 (vx a - vx b) (vy a - vy b) (vz a - vz b)"

definition uminus_Vec3 :: "Vec3 \<Rightarrow> Vec3" where
  "uminus_Vec3 a = Vec3 (- vx a) (- vy a) (- vz a)"

instance ..

end

definition vscale :: "Vec3 \<Rightarrow> real \<Rightarrow> Vec3" where
  "vscale a k = Vec3 (vx a * k) (vy a * k) (vz a * k)"

definition crossProduct :: "Vec3 \<Rightarrow> Vec3 \<Rightarrow> Vec3" where
  "crossProduct a b =
     Vec3 (vy a * vz b - vz a * vy b) (vz a * vx b - vx a * vz b) (vx a * vy b - vy a * vx b)"

definition squaredLength :: "Vec3 \<Rightarrow> real" where
  "squaredLength a = vx a * vx a + vy a * vy a + vz a * vz a"

definition vlength :: "Vec3 \<Rightarrow> real" where
  "vlength a = sqrt (squaredLength a)"

definition normalized :: "Vec3 \<Rightarrow> Vec3" where
  "normalized a = vscale a (1 / vlength a)"

definition lerp :: "Vec3 \<Rightarrow> Vec3 \<Rightarrow> real \<Rightarrow> Vec3" where
  "lerp a b t = vscale a (1 - t) + vscale b t"

definition IDENTITY :: Quat where
  "IDENTITY = Quat 0 0 0 1"

instantiation Quat :: times
begin

definition times_Quat :: "Quat \<Rightarrow> Quat \<Rightarrow> Quat" where
  "times_Quat a b =
     Quat (qw a * qx b + qw b * qx a + qy a * qz b - qy b * qz a)
          (qw a * qy b + qw b * qy a + qz a * qx b - qz b * qx a)
          (qw a * qz b + qw b * qz a + qx a * qy b - qx b * qy a)
          (qw a * qw b - qx a * qx b - qy a * qy b - qz a * qz b)"

instance ..

end

definition conjugated :: "Quat \<Rightarrow> Quat" where
  "conjugated q = Quat (- qx q) (- qy q) (- qz q) (qw q)"

definition rotate :: "Quat \<Rightarrow> Vec3 \<Rightarrow> Vec3" where
  "rotate q v =
     (let qvec = Vec3 (qx q) (qy q) (qz q);
          uv = crossProduct qvec v;
          uuv = crossProduct qvec uv
      in v + vscale uv (2 * qw q) + vscale uuv 2)"

definition lrt_mul :: "LocalRigidTransform \<Rightarrow> LocalRigidTransform \<Rightarrow> LocalRigidTransform" where
  "lrt_mul a b = \<lparr>pos = rotate (rot a) (pos b) + pos a, rot = rot a * rot b\<rparr>"

definition inverted :: "LocalRigidTransform \<Rightarrow> LocalRigidTransform" where
  "inverted a = \<lparr>pos = rotate (conjugated (rot a)) (- pos a), rot = conjugated (rot a)\<rparr>"

text \<open>The two quaternion helpers whose formulas the spec does not give, the shortest
  arc between two vectors and the normalised interpolation of two rotations, are
  parameters.\<close>

record QuatOps =
  vec3ToVec3 :: "Vec3 \<Rightarrow> Vec3 \<Rightarrow> Quat"
  nlerp :: "Quat \<Rightarrow> Quat \<Rightarrow> real \<Rightarrow> Quat"

text \<open>\<^verbatim>\<open>Transform\<close> of the universe: a position, a rotation and a scale.\<close>

record Transform =
  tr_pos :: Vec3
  tr_rot :: Quat
  tr_scale :: real

text \<open>
  The part of \<^verbatim>\<open>Universe\<close> the scene reads and writes: the world transform of every
  entity and the component types attached to it.
\<close>

record Universe =
  transforms :: "EntityRef \<Rightarrow> Transform"
  components :: "EntityRef \<Rightarrow> ComponentType set"

definition hasComponent :: "Universe \<Rightarrow> EntityRef \<Rightarrow> ComponentType \<Rightarrow> bool" where
  "hasComponent u e t = (t \<in> components u e)"

definition onComponentCreated :: "Universe \<Rightarrow> EntityRef \<Rightarrow> ComponentType \<Rightarrow> Universe" where
  "onComponentCreated u e t = u\<lparr>components := (components u)(e := insert t (components u e))\<rparr>"

definition onComponentDestroyed :: "Universe \<Rightarrow> EntityRef \<Rightarrow> ComponentType \<Rightarrow> Universe" where
  "onComponentDestroyed u e t = u\<lparr>components := (components u)(e := components u e - {t})\<rparr>"

definition getTransform :: "Universe \<Rightarrow> EntityRef \<Rightarrow> Transform" where
  "getTransform u e = transforms u e"

definition setTransform :: "Universe \<Rightarrow> EntityRef \<Rightarrow> Transform \<Rightarrow> Universe" where
  "setTransform u e tr = u\<lparr>transforms := (transforms u)(e := tr)\<rparr>"

subsection \<open>Model and pose\<close>

record Bone =
  parent_idx :: int

text \<open>\<^verbatim>\<open>Model\<close>: readiness, the bones, and the lookup of a bone index by the hash of
  the bone's name (\<^verbatim>\<open>getBoneIndex\<close>).\<close>

record Model =
  m_ready :: bool
  m_bones :: "Bone list"
  getBoneIndex :: "u32 \<rightharpoonup> nat"

record Pose =
  positions :: "Vec3 list"
  rotations :: "Quat list"

subsection \<open>Controller asset, runtime context and Animator\<close>

datatype InputType = EMPTY | FLOAT | U32 | BOOL

text \<open>One declared input of \<^verbatim>\<open>Anim::InputDecl\<close>: its type, its byte offset in
  the runtime context's input memory, and its name.\<close>

record Input =
  in_type :: InputType
  in_offset :: nat
  in_name :: string

text \<open>\<open>inputs\<close> is the fixed array of the declaration (its length is
  \<^verbatim>\<open>lengthOf(decl.inputs)\<close>), \<open>inputs_count\<close> the number of declared inputs.\<close>

record InputDecl =
  inputs :: "Input list"
  inputs_count :: nat

text \<open>\<^verbatim>\<open>Anim::Controller::IK\<close>: the bone chain of one IK slot, by bone-name hash.\<close>

record IKRes =
  max_iterations :: nat
  bones_count :: nat
  bones :: "u32 list"

record RuntimeContext =
  rc_inputs :: "u8 list"
  rc_model :: "Model option"
  time_delta :: real
  root_bone_hash :: u32

record Controller =
  c_ready :: bool
  USE_ROOT_MOTION :: bool
  m_inputs :: InputDecl
  m_ik :: "IKRes list"

record IK =
  weight :: real
  target :: Vec3

record Animator =
  entity :: EntityRef
  resource :: "Controller option"
  default_set :: u32
  ctx :: "RuntimeContext option"
  inverse_kinematics :: "IK list"

text \<open>A default-constructed \<^verbatim>\<open>Animator\<close>: no controller, no context, four IK slots
  of weight 0 (their targets are not initialised by the source; the model takes zero).\<close>

definition new_Animator :: Animator where
  "new_Animator =
     \<lparr>entity = 0, resource = None, default_set = 0, ctx = None,
      inverse_kinematics = replicate 4 \<lparr>weight = 0, target = Vec3 0 0 0\<rparr>\<rparr>"

subsection \<open>The Animator collection\<close>

text \<open>
  \<^verbatim>\<open>Array<Animator> m_animators\<close> is a list, \<^verbatim>\<open>HashMap<EntityRef, u32> m_animator_map\<close>
  a partial map from entities to indices into it, \<^verbatim>\<open>OutputMemoryStream m_event_stream\<close>
  the bytes written so far.
\<close>

record AnimatorStore =
  m_universe :: Universe
  m_animators :: "Animator list"
  m_animator_map :: "EntityRef \<rightharpoonup> nat"
  m_event_stream :: "u8 list"

text \<open>\<^verbatim>\<open>Array::swapAndPop(idx)\<close>: the last element is moved into slot \<open>idx\<close> and the
  array shrinks by one; an index outside the array changes nothing.\<close>

definition swapAndPop :: "'a list \<Rightarrow> nat \<Rightarrow> 'a list" where
  "swapAndPop xs idx = (if idx < length xs then butlast (xs[idx := last xs]) else xs)"

text \<open>\<^verbatim>\<open>setAnimatorSource(Animator&, Anim::Controller*)\<close>: rebinding destroys the runtime
  context of the controller bound before. Controllers are compared as pointers in the
  source; a controller is held by value here, so the only equal pair recognised
  is null with null, the one the callers modelled below rely on.\<close>

definition setAnimatorSource :: "Animator \<Rightarrow> Controller option \<Rightarrow> Animator" where
  "setAnimatorSource animator res =
     (if resource animator = None \<and> res = None then animator
      else (if resource animator \<noteq> None then animator\<lparr>ctx := None\<rparr> else animator)
             \<lparr>resource := res\<rparr>)"

definition createAnimator :: "AnimatorStore \<Rightarrow> EntityRef \<Rightarrow> AnimatorStore" where
  "createAnimator s e =
     (let map' = (m_animator_map s)(e \<mapsto> length (m_animators s));
          animator = new_Animator\<lparr>entity := e\<rparr>
      in s\<lparr>m_animator_map := map',
            m_animators := m_animators s @ [animator],
            m_universe := onComponentCreated (m_universe s) e ANIMATOR_TYPE\<rparr>)"

text \<open>\<^verbatim>\<open>destroyAnimator\<close>. \<^verbatim>\<open>HashMap::operator[]\<close> needs its key to be present and
  \<^verbatim>\<open>Array::operator[]\<close> its index to be in range; both are errors here otherwise.\<close>

definition destroyAnimator :: "AnimatorStore \<Rightarrow> EntityRef \<Rightarrow> error + AnimatorStore" where
  "destroyAnimator s e =
     (case m_animator_map s e of
        None \<Rightarrow> Inl KeyNotFound
      | Some idx \<Rightarrow>
          if \<not> idx < length (m_animators s) then Inl OutOfBounds
          else
            let animator = setAnimatorSource (m_animators s ! idx) None;
                animators1 = (m_animators s)[idx := animator];
                last_e = entity (last animators1)
            in (case m_animator_map s last_e of
                  None \<Rightarrow> Inl KeyNotFound
                | Some _ \<Rightarrow>
                    let map1 = (m_animator_map s)(last_e \<mapsto> idx);
                        map2 = map1(e := None)
                    in Inr (s\<lparr>m_animator_map := map2,
                              m_animators := swapAndPop animators1 idx,
                              m_universe := onComponentDestroyed (m_universe s) e ANIMATOR_TYPE\<rparr>)))"

text \<open>The invariant of the collection: every map entry points at the record of its
  entity, and every record has its map entry.\<close>

definition animators_inv :: "AnimatorStore \<Rightarrow> bool" where
  "animators_inv s =
     ((\<forall>e i. m_animator_map s e = Some i \<longrightarrow>
          i < length (m_animators s) \<and> entity (m_animators s ! i) = e) \<and>
      (\<forall>i < length (m_animators s). m_animator_map s (entity (m_animators s ! i)) = Some i))"

subsection \<open>Input memory of the runtime context\<close>

text \<open>
  Values are stored in \<^verbatim>\<open>ctx->inputs\<close> as bytes, least significant byte first (the
  layout of the platforms the engine builds for). A \<^verbatim>\<open>float\<close> stored there is its
  32-bit pattern, a \<^verbatim>\<open>bool\<close> one byte.
\<close>

definition u32_bytes :: "u32 \<Rightarrow> u8 list" where
  "u32_bytes w = [ucast w, ucast (drop_bit 8 w), ucast (drop_bit 16 w), ucast (drop_bit 24 w)]"

definition bytes_u32 :: "u8 list \<Rightarrow> u32" where
  "bytes_u32 bs =
     ucast (bs ! 0) OR push_bit 8 (ucast (bs ! 1)) OR push_bit 16 (ucast (bs ! 2)) OR
     push_bit 24 (ucast (bs ! 3))"

definition bool_byte :: "bool \<Rightarrow> u8" where
  "bool_byte b = (if b then 1 else 0)"

text \<open>A store of \<open>bs\<close> at byte \<open>off\<close> of a memory; outside the memory it is an error.\<close>

definition write_bytes :: "u8 list \<Rightarrow> nat \<Rightarrow> u8 list \<Rightarrow> error + u8 list" where
  "write_bytes mem off bs =
     (if off + length bs \<le> length mem
      then Inr (take off mem @ bs @ drop (off + length bs) mem)
      else Inl OutOfBounds)"

text \<open>A store into the input memory of the context of the animator at index \<open>i\<close>.\<close>

definition write_input ::
  "AnimatorStore \<Rightarrow> nat \<Rightarrow> RuntimeContext \<Rightarrow> nat \<Rightarrow> u8 list \<Rightarrow> error + AnimatorStore"
where
  "write_input s i c off bs =
     (case write_bytes (rc_inputs c) off bs of
        Inl err \<Rightarrow> Inl err
      | Inr mem \<Rightarrow>
          Inr (s\<lparr>m_animators :=
                   (m_animators s)[i := (m_animators s ! i)\<lparr>ctx := Some (c\<lparr>rc_inputs := mem\<rparr>)\<rparr>]\<rparr>))"

subsection \<open>The input setters\<close>

text \<open>
  \<^verbatim>\<open>setAnimatorFloatInput\<close>, \<^verbatim>\<open>setAnimatorU32Input\<close> and \<^verbatim>\<open>setAnimatorBoolInput\<close> share
  one body up to the type they expect, the bytes they store and the word of their
  warning. The result is the store and the warnings logged by the call.
\<close>

definition setAnimatorTypedInput ::
  "InputType \<Rightarrow> string \<Rightarrow> AnimatorStore \<Rightarrow> EntityRef \<Rightarrow> nat \<Rightarrow> u8 list \<Rightarrow>
   error + AnimatorStore \<times> string list"
where
  "setAnimatorTypedInput ty word s e input_idx bs =
     (case m_animator_map s e of
        None \<Rightarrow> Inr (s, [])
      | Some i \<Rightarrow>
          if \<not> i < length (m_animators s) then Inl OutOfBounds
          else
            (case resource (m_animators s ! i) of
               None \<Rightarrow> Inl NullPointer
             | Some res \<Rightarrow>
                 let decl = m_inputs res
                 in if input_idx \<ge> inputs_count decl then Inr (s, [])
                    else
                      (case ctx (m_animators s ! i) of
                         None \<Rightarrow> Inr (s, [])
                       | Some c \<Rightarrow>
                           if \<not> input_idx < length (inputs decl) then Inl OutOfBounds
                           else if in_type (inputs decl ! input_idx) = ty then
                             (case write_input s i c (in_offset (inputs decl ! input_idx)) bs of
                                Inl err \<Rightarrow> Inl err
                              | Inr s' \<Rightarrow> Inr (s', []))
                           else
                             Inr (s, [''Trying to set '' @ word @ '' to '' @
                                        in_name (inputs decl ! input_idx)]))))"

definition setAnimatorFloatInput ::
  "AnimatorStore \<Rightarrow> EntityRef \<Rightarrow> nat \<Rightarrow> u32 \<Rightarrow> error + AnimatorStore \<times> string list" where
  "setAnimatorFloatInput s e input_idx v =
     setAnimatorTypedInput FLOAT ''float'' s e input_idx (u32_bytes v)"

definition setAnimatorU32Input ::
  "AnimatorStore \<Rightarrow> EntityRef \<Rightarrow> nat \<Rightarrow> u32 \<Rightarrow> error + AnimatorStore \<times> string list" where
  "setAnimatorU32Input s e input_idx v =
     setAnimatorTypedInput U32 ''int'' s e input_idx (u32_bytes v)"

definition setAnimatorBoolInput ::
  "AnimatorStore \<Rightarrow> EntityRef \<Rightarrow> nat \<Rightarrow> bool \<Rightarrow> error + AnimatorStore \<times> string list" where
  "setAnimatorBoolInput s e input_idx v =
     setAnimatorTypedInput BOOL ''bool'' s e input_idx [bool_byte v]"

text \<open>
  Modelled from the spec: the macro \<^verbatim>\<open>ASSERT\<close> (its header is not among the sources).
  The spec calls a violated assertion fatal; builds without assertions do not
  evaluate the condition. \<open>asserts\<close> says whether assertions are compiled in.

  The three overloads of \<^verbatim>\<open>setAnimatorInput\<close> share one body up to the type their
  second assertion names and the bytes they store. The first assertion holds when the
  index is \<^emph>\<open>not\<close> inside \<^verbatim>\<open>decl.inputs\<close>, the second when the declared type is
  \<^emph>\<open>not\<close> the type of the overload; the second reads \<^verbatim>\<open>decl.inputs[input_idx]\<close>.
\<close>

definition setAnimatorInput_typed ::
  "bool \<Rightarrow> InputType \<Rightarrow> AnimatorStore \<Rightarrow> EntityRef \<Rightarrow> nat \<Rightarrow> u8 list \<Rightarrow> error + AnimatorStore"
where
  "setAnimatorInput_typed asserts ty s e input_idx bs =
     (case m_animator_map s e of
        None \<Rightarrow> Inl KeyNotFound
      | Some i \<Rightarrow>
          if \<not> i < length (m_animators s) then Inl OutOfBounds
          else
            (case resource (m_animators s ! i) of
               None \<Rightarrow> Inl NullPointer
             | Some res \<Rightarrow>
                 let decl = m_inputs res
                 in if asserts \<and> \<not> input_idx \<ge> length (inputs decl) then Inl AssertionFailed
                    else if asserts \<and> \<not> input_idx < length (inputs decl) then Inl OutOfBounds
                    else if asserts \<and> \<not> in_type (inputs decl ! input_idx) \<noteq> ty
                    then Inl AssertionFailed
                    else
                      (case ctx (m_animators s ! i) of
                         None \<Rightarrow> Inl NullPointer
                       | Some c \<Rightarrow>
                           if \<not> input_idx < length (inputs decl) then Inl OutOfBounds
                           else write_input s i c (in_offset (inputs decl ! input_idx)) bs)))"

definition setAnimatorInput_float ::
  "bool \<Rightarrow> AnimatorStore \<Rightarrow> EntityRef \<Rightarrow> nat \<Rightarrow> u32 \<Rightarrow> error + AnimatorStore" where
  "setAnimatorInput_float asserts s e input_idx v =
     setAnimatorInput_typed asserts FLOAT s e input_idx (u32_bytes v)"

definition setAnimatorInput_bool ::
  "bool \<Rightarrow> AnimatorStore \<Rightarrow> EntityRef \<Rightarrow> nat \<Rightarrow> bool \<Rightarrow> error + AnimatorStore" where
  "setAnimatorInput_bool asserts s e input_idx v =
     setAnimatorInput_typed asserts BOOL s e input_idx [bool_byte v]"

definition setAnimatorInput_u32 ::
  "bool \<Rightarrow> AnimatorStore \<Rightarrow> EntityRef \<Rightarrow> nat \<Rightarrow> u32 \<Rightarrow> error + AnimatorStore" where
  "setAnimatorInput_u32 asserts s e input_idx v =
     setAnimatorInput_typed asserts U32 s e input_idx (u32_bytes v)"

subsection \<open>The event stream\<close>

text \<open>
  Modelled from the spec: \<^verbatim>\<open>InputMemoryStream\<close> and \<^verbatim>\<open>Anim::SetInputEvent\<close> (their
  headers are not among the sources). A read takes the next bytes of the buffer; a
  read that would pass the end of the buffer has no value here. The event of a
  "set input" record is an input-slot index (32 bits) followed by the typed value
  (32 bits, of which a bool uses the first byte).
\<close>

definition read_bytes :: "u8 list \<Rightarrow> nat \<Rightarrow> nat \<Rightarrow> error + u8 list" where
  "read_bytes blob p n =
     (if p + n \<le> length blob then Inr (take n (drop p blob)) else Inl OutOfBounds)"

text \<open>The branch of \<^verbatim>\<open>processEventStream\<close> for a record with the tag of
  \<^verbatim>\<open>"set_input"\<close>, after the event \<open>ev\<close> (eight bytes) has been read.\<close>

definition apply_set_input ::
  "bool \<Rightarrow> AnimatorStore \<Rightarrow> EntityRef \<Rightarrow> u8 list \<Rightarrow> error + AnimatorStore"
where
  "apply_set_input asserts s e ev =
     (case m_animator_map s e of
        None \<Rightarrow> Inl KeyNotFound
      | Some i \<Rightarrow>
          if \<not> i < length (m_animators s) then Inl OutOfBounds
          else
            (case resource (m_animators s ! i) of
               None \<Rightarrow> Inl NullPointer
             | Some res \<Rightarrow>
                 if c_ready res then
                   let decl = m_inputs res;
                       input_idx = unat (bytes_u32 (take 4 ev))
                   in if \<not> input_idx < length (inputs decl) then Inl OutOfBounds
                      else
                        let input = inputs decl ! input_idx
                        in (case in_type input of
                              BOOL \<Rightarrow>
                                (case ctx (m_animators s ! i) of
                                   None \<Rightarrow> Inl NullPointer
                                 | Some c \<Rightarrow> write_input s i c (in_offset input) [ev ! 4])
                            | U32 \<Rightarrow>
                                (case ctx (m_animators s ! i) of
                                   None \<Rightarrow> Inl NullPointer
                                 | Some c \<Rightarrow>
                                     write_input s i c (in_offset input) (take 4 (drop 4 ev)))
                            | FLOAT \<Rightarrow>
                                (case ctx (m_animators s ! i) of
                                   None \<Rightarrow> Inl NullPointer
                                 | Some c \<Rightarrow>
                                     write_input s i c (in_offset input) (take 4 (drop 4 ev)))
                            | EMPTY \<Rightarrow> if asserts then Inl AssertionFailed else Inr s)
                 else Inr s))"

text \<open>The loop of \<^verbatim>\<open>processEventStream\<close> over the buffer \<open>blob\<close> from position \<open>p\<close>;
  \<open>set_input_type\<close> is \<^verbatim>\<open>crc32("set_input")\<close>. The header of a record is the type
  (4 bytes), the entity (4 bytes) and the size (1 byte).\<close>

function processEventStream_loop ::
  "bool \<Rightarrow> u32 \<Rightarrow> u8 list \<Rightarrow> nat \<Rightarrow> AnimatorStore \<Rightarrow> error + AnimatorStore"
where
  "processEventStream_loop asserts set_input_type blob p s =
     (if p < length blob then
        (case read_bytes blob p 4 of
           Inl err \<Rightarrow> Inl err
         | Inr type_bytes \<Rightarrow>
             (case read_bytes blob (p + 4) 4 of
                Inl err \<Rightarrow> Inl err
              | Inr entity_bytes \<Rightarrow>
                  (case read_bytes blob (p + 8) 1 of
                     Inl err \<Rightarrow> Inl err
                   | Inr size_bytes \<Rightarrow>
                       if bytes_u32 type_bytes = set_input_type then
                         (case read_bytes blob (p + 9) 8 of
                            Inl err \<Rightarrow> Inl err
                          | Inr ev \<Rightarrow>
                              (case apply_set_input asserts s (bytes_u32 entity_bytes) ev of
                                 Inl err \<Rightarrow> Inl err
                               | Inr s' \<Rightarrow>
                                   processEventStream_loop asserts set_input_type blob
                                     (p + 17) s'))
                       else
                         processEventStream_loop asserts set_input_type blob
                           (p + 9 + unat (size_bytes ! 0)) s)))
      else Inr s)"
  by pat_completeness auto
termination
  by (relation "measure (\<lambda>(asserts, t, blob, p, s). length blob - p)") auto

declare processEventStream_loop.simps [simp del]

definition processEventStream :: "bool \<Rightarrow> u32 \<Rightarrow> AnimatorStore \<Rightarrow> error + AnimatorStore" where
  "processEventStream asserts set_input_type s =
     processEventStream_loop asserts set_input_type (m_event_stream s) 0 s"

text \<open>The records a producer appends, for stating what the drain does: a "set input"
  record (entity, size byte, slot index, four value bytes) and a record of another
  type (type, entity, payload), with their bytes in the stream.\<close>

datatype EventRecord =
  SetInputRecord EntityRef u8 u32 "u8 list"
  | OtherRecord u32 EntityRef "u8 list"

fun encode_record :: "u32 \<Rightarrow> EventRecord \<Rightarrow> u8 list" where
  "encode_record set_input_type (SetInputRecord e sz idx val) =
     u32_bytes set_input_type @ u32_bytes e @ [sz] @ u32_bytes idx @ val"
| "encode_record set_input_type (OtherRecord ty e payload) =
     u32_bytes ty @ u32_bytes e @ [of_nat (length payload)] @ payload"

fun wf_record :: "u32 \<Rightarrow> EventRecord \<Rightarrow> bool" where
  "wf_record set_input_type (SetInputRecord e sz idx val) = (length val = 4)"
| "wf_record set_input_type (OtherRecord ty e payload) =
     (ty \<noteq> set_input_type \<and> length payload < 256)"

fun apply_record :: "bool \<Rightarrow> AnimatorStore \<Rightarrow> EventRecord \<Rightarrow> error + AnimatorStore" where
  "apply_record asserts s (SetInputRecord e sz idx val) =
     apply_set_input asserts s e (u32_bytes idx @ val)"
| "apply_record asserts s (OtherRecord ty e payload) = Inr s"

fun apply_records :: "bool \<Rightarrow> AnimatorStore \<Rightarrow> EventRecord list \<Rightarrow> error + AnimatorStore" where
  "apply_records asserts s [] = Inr s"
| "apply_records asserts s (r # rs) =
     (case apply_record asserts s r of
        Inl err \<Rightarrow> Inl err
      | Inr s' \<Rightarrow> apply_records asserts s' rs)"

subsection \<open>The render scene\<close>

text \<open>A model instance of the render scene: its model (a pointer), and its pose, which
  \<^verbatim>\<open>lockPose\<close> hands out or refuses (null).\<close>

record ModelInstance =
  mi_model :: "Model option"
  mi_pose :: "Pose option"

type_synonym RenderScene = "EntityRef \<rightharpoonup> ModelInstance"

definition getModelInstanceModel :: "RenderScene \<Rightarrow> EntityRef \<Rightarrow> error + Model" where
  "getModelInstanceModel rs e =
     (case rs e of
        None \<Rightarrow> Inl KeyNotFound
      | Some mi \<Rightarrow> (case mi_model mi of None \<Rightarrow> Inl NullPointer | Some m \<Rightarrow> Inr m))"

definition lockPose :: "RenderScene \<Rightarrow> EntityRef \<Rightarrow> Pose option" where
  "lockPose rs e = (case rs e of None \<Rightarrow> None | Some mi \<Rightarrow> mi_pose mi)"

text \<open>The pose is changed in place between \<^verbatim>\<open>lockPose\<close> and \<^verbatim>\<open>unlockPose\<close>; the
  model writes the changed pose back when it unlocks.\<close>

definition unlockPose :: "RenderScene \<Rightarrow> EntityRef \<Rightarrow> Pose \<Rightarrow> RenderScene" where
  "unlockPose rs e p =
     (case rs e of None \<Rightarrow> rs | Some mi \<Rightarrow> rs(e \<mapsto> mi\<lparr>mi_pose := Some p\<rparr>))"

subsection \<open>Time\<close>

text \<open>
  Modelled from the spec: the type \<^verbatim>\<open>Time\<close> with \<^verbatim>\<open>fromSeconds\<close>, \<^verbatim>\<open>+\<close> and \<^verbatim>\<open>%\<close>
  (its header is not among the sources). The spec speaks of an elapsed time in
  seconds that is advanced by \<open>dt\<close> and wraps modulo the clip length, so a time is
  a real number of seconds and \<open>%\<close> is the remainder of the division by the length.
\<close>

type_synonym Time = real

definition fromSeconds :: "real \<Rightarrow> Time" where
  "fromSeconds t = t"

definition time_mod :: "Time \<Rightarrow> Time \<Rightarrow> Time" where
  "time_mod t l = t - l * of_int \<lfloor>t / l\<rfloor>"

subsection \<open>Animation clip player\<close>

record Animation =
  a_ready :: bool
  a_length :: Time

record Animable =
  an_entity :: EntityRef
  an_animation :: "Animation option"
  an_time :: Time

text \<open>The pose computations of the collaborators (\<^verbatim>\<open>Model::getRelativePose\<close>,
  \<^verbatim>\<open>Animation::getRelativePose\<close>, \<^verbatim>\<open>Pose::computeAbsolute\<close>) are parameters: the scene
  only calls them.\<close>

record PoseOps =
  model_getRelativePose :: "Model \<Rightarrow> Pose \<Rightarrow> Pose"
  animation_getRelativePose :: "Animation \<Rightarrow> Time \<Rightarrow> Pose \<Rightarrow> Model \<Rightarrow> Pose"
  computeAbsolute :: "Pose \<Rightarrow> Model \<Rightarrow> Pose"

text \<open>\<^verbatim>\<open>updateAnimable(Animable&, float)\<close>. The result is the render scene (with the
  pose written back) and the animable. A remainder by a zero length has no value.\<close>

definition updateAnimable ::
  "PoseOps \<Rightarrow> Universe \<Rightarrow> RenderScene \<Rightarrow> Animable \<Rightarrow> real \<Rightarrow> error + RenderScene \<times> Animable"
where
  "updateAnimable ops u rs animable dt =
     (case an_animation animable of
        None \<Rightarrow> Inr (rs, animable)
      | Some anim \<Rightarrow>
          if \<not> a_ready anim then Inr (rs, animable)
          else if \<not> hasComponent u (an_entity animable) MODEL_INSTANCE_TYPE
          then Inr (rs, animable)
          else
            (case getModelInstanceModel rs (an_entity animable) of
               Inl err \<Rightarrow> Inl err
             | Inr model \<Rightarrow>
                 if \<not> m_ready model then Inr (rs, animable)
                 else
                   (case lockPose rs (an_entity animable) of
                      None \<Rightarrow> Inr (rs, animable)
                    | Some pose \<Rightarrow>
                        let pose1 = model_getRelativePose ops model pose;
                            pose2 = animation_getRelativePose ops anim (an_time animable) pose1 model;
                            pose3 = computeAbsolute ops pose2 model;
                            t = an_time animable + fromSeconds dt;
                            l = a_length anim
                        in if l = 0 then Inl DivisionByZero
                           else Inr (unlockPose rs (an_entity animable) pose3,
                                     animable\<lparr>an_time := time_mod t l\<rparr>))))"

subsection \<open>Curve property animator\<close>

text \<open>
  Modelled from the spec: \<^verbatim>\<open>PropertyAnimation\<close> and its curves (the header is not among
  the sources). A curve is an ordered list of keyframes, each a frame index and a
  value, for one property of one component type; \<open>frames\<close> and \<open>values_of\<close> are its two
  columns, which the scene indexes as \<^verbatim>\<open>curve.frames[i]\<close> and \<^verbatim>\<open>curve.values[i]\<close>.
\<close>

record Curve =
  cmp_type :: ComponentType
  property :: string
  keyframes :: "(int \<times> real) list"

definition frames :: "Curve \<Rightarrow> int list" where
  "frames c = map fst (keyframes c)"

definition values_of :: "Curve \<Rightarrow> real list" where
  "values_of c = map snd (keyframes c)"

record PropertyAnimation =
  pa_ready :: bool
  fps :: real
  curves :: "Curve list"

text \<open>\<^verbatim>\<open>FlagSet<Flags, u32>\<close> with \<^verbatim>\<open>LOOPED = 1 << 0\<close> and \<^verbatim>\<open>DISABLED = 1 << 1\<close>.\<close>

definition LOOPED :: u32 where "LOOPED = push_bit 0 1"
definition DISABLED :: u32 where "DISABLED = push_bit 1 1"

definition isSet :: "u32 \<Rightarrow> u32 \<Rightarrow> bool" where
  "isSet base flag = (base AND flag \<noteq> 0)"

definition flag_set :: "u32 \<Rightarrow> u32 \<Rightarrow> bool \<Rightarrow> u32" where
  "flag_set base flag v = (if v then base OR flag else base AND NOT flag)"

record PropertyAnimator =
  animation :: "PropertyAnimation option"
  flags :: u32
  time :: real

text \<open>The properties of the scene's objects that curves write, by component type,
  property and entity (\<^verbatim>\<open>curve.property->setValue(cmp, -1, blob)\<close>).\<close>

type_synonym Properties = "ComponentType \<times> string \<times> EntityRef \<rightharpoonup> real"

text \<open>\<^verbatim>\<open>AssociativeArray<EntityRef, PropertyAnimator>\<close> is a list of pairs, in the
  order the update walks it.\<close>

record PropertyScene =
  m_property_animators :: "(EntityRef \<times> PropertyAnimator) list"
  m_properties :: Properties

text \<open>\<^verbatim>\<open>int(x)\<close> on a float truncates towards zero; \<^verbatim>\<open>int\<close> has 32 bits, and the
  conversion of a float whose truncation is outside its range is undefined.\<close>

definition truncate_real :: "real \<Rightarrow> int" where
  "truncate_real v = (if 0 \<le> v then \<lfloor>v\<rfloor> else \<lceil>v\<rceil>)"

definition float_to_int :: "real \<Rightarrow> error + int" where
  "float_to_int v =
     (if - (2 ^ 31) \<le> truncate_real v \<and> truncate_real v < 2 ^ 31
      then Inr (truncate_real v) else Inl Overflow)"

text \<open>The inner loop of \<^verbatim>\<open>applyPropertyAnimator\<close> over one curve, from index \<open>i\<close>:
  the value it passes to \<^verbatim>\<open>setValue\<close> at the first keyframe whose frame is not below
  the sample frame, or nothing when the loop ends without one.\<close>

function curve_sample :: "int \<Rightarrow> Curve \<Rightarrow> nat \<Rightarrow> real option" where
  "curve_sample frame curve i =
     (if i < length (frames curve) then
        if frame \<le> frames curve ! i then
          let t = real_of_int (frame - frames curve ! (i - 1)) /
                  real_of_int (frames curve ! i - frames curve ! (i - 1));
              v = values_of curve ! i * t + values_of curve ! (i - 1) * (1 - t)
          in Some v
        else curve_sample frame curve (i + 1)
      else None)"
  by pat_completeness auto
termination
  by (relation "measure (\<lambda>(frame, curve, i). length (frames curve) - i)") auto

declare curve_sample.simps [simp del]

definition apply_curve :: "EntityRef \<Rightarrow> int \<Rightarrow> Properties \<Rightarrow> Curve \<Rightarrow> Properties" where
  "apply_curve e frame props curve =
     (if length (frames curve) < 2 then props
      else case curve_sample frame curve 1 of
             None \<Rightarrow> props
           | Some v \<Rightarrow> props((cmp_type curve, property curve, e) \<mapsto> v))"

text \<open>\<^verbatim>\<open>applyPropertyAnimator\<close>. The frame index is converted to \<^verbatim>\<open>int\<close> before
  the curves are read. C++ \<^verbatim>\<open>%\<close> on \<^verbatim>\<open>int\<close> truncates (\<open>smod\<close>); the remainder of an
  \<^verbatim>\<open>int\<close> by a frame stored in the asset is an \<^verbatim>\<open>int\<close> again.\<close>

definition applyPropertyAnimator ::
  "Properties \<Rightarrow> EntityRef \<Rightarrow> PropertyAnimator \<Rightarrow> error + Properties"
where
  "applyPropertyAnimator props e animator =
     (case animation animator of
        None \<Rightarrow> Inl NullPointer
      | Some anim \<Rightarrow>
          (case float_to_int (time animator * fps anim + 1 / 2) of
             Inl err \<Rightarrow> Inl err
           | Inr frame \<Rightarrow>
               if curves anim = [] then Inl OutOfBounds
               else if frames (curves anim ! 0) = [] then Inl OutOfBounds
               else if last (frames (curves anim ! 0)) = 0 then Inl DivisionByZero
               else
                 let frame = frame smod last (frames (curves anim ! 0))
                 in Inr (foldl (apply_curve e frame) props (curves anim))))"

text \<open>\<^verbatim>\<open>AssociativeArray::get\<close> needs its key to be present.\<close>

definition enablePropertyAnimator ::
  "PropertyScene \<Rightarrow> EntityRef \<Rightarrow> bool \<Rightarrow> error + PropertyScene"
where
  "enablePropertyAnimator s e enabled =
     (case map_of (m_property_animators s) e of
        None \<Rightarrow> Inl KeyNotFound
      | Some animator0 \<Rightarrow>
          let animator = animator0\<lparr>flags := flag_set (flags animator0) DISABLED (\<not> enabled),
                                    time := 0\<rparr>;
              s1 = s\<lparr>m_property_animators :=
                      AList.update e animator (m_property_animators s)\<rparr>
          in if \<not> enabled then
               (case applyPropertyAnimator (m_properties s1) e animator of
                  Inl err \<Rightarrow> Inl err
                | Inr props \<Rightarrow> Inr (s1\<lparr>m_properties := props\<rparr>))
             else Inr s1)"

text \<open>\<^verbatim>\<open>updatePropertyAnimators\<close>: the loop over the animators, in order. \<open>visited\<close> holds
  the animators already visited.\<close>

fun updatePropertyAnimators_loop ::
  "real \<Rightarrow> (EntityRef \<times> PropertyAnimator) list \<Rightarrow> (EntityRef \<times> PropertyAnimator) list \<Rightarrow>
   Properties \<Rightarrow> error + (EntityRef \<times> PropertyAnimator) list \<times> Properties"
where
  "updatePropertyAnimators_loop dt visited [] props = Inr (visited, props)"
| "updatePropertyAnimators_loop dt visited ((e, animator) # rest) props =
     (case animation animator of
        None \<Rightarrow> updatePropertyAnimators_loop dt (visited @ [(e, animator)]) rest props
      | Some anim \<Rightarrow>
          if \<not> pa_ready anim then
            updatePropertyAnimators_loop dt (visited @ [(e, animator)]) rest props
          else if curves anim = [] then
            updatePropertyAnimators_loop dt (visited @ [(e, animator)]) rest props
          else if frames (curves anim ! 0) = [] then
            updatePropertyAnimators_loop dt (visited @ [(e, animator)]) rest props
          else if isSet (flags animator) DISABLED then
            updatePropertyAnimators_loop dt (visited @ [(e, animator)]) rest props
          else
            let animator' = animator\<lparr>time := time animator + dt\<rparr>
            in (case applyPropertyAnimator props e animator' of
                  Inl err \<Rightarrow> Inl err
                | Inr props' \<Rightarrow>
                    updatePropertyAnimators_loop dt (visited @ [(e, animator')]) rest props'))"

definition updatePropertyAnimators :: "PropertyScene \<Rightarrow> real \<Rightarrow> error + PropertyScene" where
  "updatePropertyAnimators s dt =
     (case updatePropertyAnimators_loop dt [] (m_property_animators s) (m_properties s) of
        Inl err \<Rightarrow> Inl err
      | Inr (animators, props) \<Rightarrow>
          Inr (s\<lparr>m_property_animators := animators, m_properties := props\<rparr>))"

text \<open>The guards of \<^verbatim>\<open>updateAnimable\<close> beyond the clip itself: the entity has a model
  instance, its model is there and ready, and its pose can be locked.\<close>

definition pose_available :: "Universe \<Rightarrow> RenderScene \<Rightarrow> EntityRef \<Rightarrow> bool" where
  "pose_available u rs e =
     (hasComponent u e MODEL_INSTANCE_TYPE \<and>
      (case rs e of
         None \<Rightarrow> False
       | Some mi \<Rightarrow>
           (case mi_model mi of None \<Rightarrow> False | Some m \<Rightarrow> m_ready m) \<and> mi_pose mi \<noteq> None))"

subsection \<open>The IK solver\<close>

text \<open>\<^verbatim>\<open>getAbsolutePosition\<close> recurses along the parents. A chain of parents longer
  than the number of bones comes back to a bone, and the recursion of the source does
  not end; the model counts the bones down and reports \<open>NoReturn\<close> then.\<close>

fun getAbsolutePosition_fuel ::
  "nat \<Rightarrow> Pose \<Rightarrow> Model \<Rightarrow> nat \<Rightarrow> error + LocalRigidTransform"
where
  "getAbsolutePosition_fuel 0 pose model bone_index = Inl NoReturn"
| "getAbsolutePosition_fuel (Suc fuel) pose model bone_index =
     (if \<not> (bone_index < length (m_bones model) \<and> bone_index < length (positions pose) \<and>
             bone_index < length (rotations pose))
      then Inl OutOfBounds
      else
        let bone = m_bones model ! bone_index;
            bone_transform = \<lparr>pos = positions pose ! bone_index,
                              rot = rotations pose ! bone_index\<rparr>
        in if parent_idx bone < 0 then Inr bone_transform
           else (case getAbsolutePosition_fuel fuel pose model (nat (parent_idx bone)) of
                   Inl err \<Rightarrow> Inl err
                 | Inr parent \<Rightarrow> Inr (lrt_mul parent bone_transform)))"

definition getAbsolutePosition :: "Pose \<Rightarrow> Model \<Rightarrow> nat \<Rightarrow> error + LocalRigidTransform" where
  "getAbsolutePosition pose model bone_index =
     getAbsolutePosition_fuel (length (m_bones model)) pose model bone_index"

text \<open>From bone space to object space: the transform of every joint of the chain,
  each composed onto the one before it, starting from the parent of the chain.\<close>

fun to_object_space :: "Pose \<Rightarrow> nat list \<Rightarrow> LocalRigidTransform \<Rightarrow> LocalRigidTransform list" where
  "to_object_space pose [] parent_tr = []"
| "to_object_space pose (idx # rest) parent_tr =
     (let tr = \<lparr>pos = positions pose ! idx, rot = rotations pose ! idx\<rparr>;
          t = lrt_mul parent_tr tr
      in t # to_object_space pose rest t)"

text \<open>\<^verbatim>\<open>len[i - 1]\<close>, the distance of joint \<open>i\<close> from joint \<open>i - 1\<close>; the source
  fills it in the same loop.\<close>

definition segment_lengths :: "LocalRigidTransform list \<Rightarrow> real list" where
  "segment_lengths ts =
     map (\<lambda>i. vlength (pos (ts ! (i + 1)) - pos (ts ! i))) [0 ..< length ts - 1]"

text \<open>The clamp of the target to the reach of the chain.\<close>

definition ik_clamp_target :: "Vec3 \<Rightarrow> Vec3 \<Rightarrow> real \<Rightarrow> Vec3" where
  "ik_clamp_target tgt p0 len_sum =
     (let to_target = tgt - p0
      in if len_sum * len_sum < squaredLength to_target
         then p0 + vscale (normalized to_target) len_sum
         else tgt)"

text \<open>The first inner loop of an iteration, \<^verbatim>\<open>for (i = bones_count - 1; i > 1; --i)\<close>,
  from index \<open>i\<close>.\<close>

fun forward_pass :: "nat \<Rightarrow> LocalRigidTransform list \<Rightarrow> real list \<Rightarrow> LocalRigidTransform list" where
  "forward_pass i ts len =
     (if 1 < i then
        let dir = normalized (pos (ts ! (i - 1)) - pos (ts ! i));
            ts' = ts[i - 1 := (ts ! (i - 1))\<lparr>pos := pos (ts ! i) + vscale dir (len ! (i - 1))\<rparr>]
        in forward_pass (i - 1) ts' len
      else ts)"

declare forward_pass.simps [simp del]

text \<open>The second inner loop, \<^verbatim>\<open>for (i = 1; i < bones_count; ++i)\<close>, from index \<open>i\<close>.\<close>

function backward_pass ::
  "nat \<Rightarrow> nat \<Rightarrow> LocalRigidTransform list \<Rightarrow> real list \<Rightarrow> LocalRigidTransform list"
where
  "backward_pass i n ts len =
     (if i < n then
        let dir = normalized (pos (ts ! i) - pos (ts ! (i - 1)));
            ts' = ts[i := (ts ! i)\<lparr>pos := pos (ts ! (i - 1)) + vscale dir (len ! (i - 1))\<rparr>]
        in backward_pass (i + 1) n ts' len
      else ts)"
  by pat_completeness auto
termination
  by (relation "measure (\<lambda>(i, n, ts, len). n - i)") auto

declare backward_pass.simps [simp del]

text \<open>One iteration of the solver pins the last joint to the target and runs the two
  loops.\<close>

definition ik_iteration ::
  "nat \<Rightarrow> Vec3 \<Rightarrow> real list \<Rightarrow> LocalRigidTransform list \<Rightarrow> LocalRigidTransform list"
where
  "ik_iteration n tgt len ts =
     (let ts1 = ts[n - 1 := (ts ! (n - 1))\<lparr>pos := tgt\<rparr>];
          ts2 = forward_pass (n - 1) ts1 len
      in backward_pass 1 n ts2 len)"

fun ik_iterations ::
  "nat \<Rightarrow> nat \<Rightarrow> Vec3 \<Rightarrow> real list \<Rightarrow> LocalRigidTransform list \<Rightarrow> LocalRigidTransform list"
where
  "ik_iterations 0 n tgt len ts = ts"
| "ik_iterations (Suc k) n tgt len ts = ik_iterations k n tgt len (ik_iteration n tgt len ts)"

text \<open>The clamp and the iterations on the chain in object space: the joints after
  \<^verbatim>\<open>max_iterations\<close> iterations.\<close>

definition ik_solve :: "IKRes \<Rightarrow> Vec3 \<Rightarrow> LocalRigidTransform list \<Rightarrow> LocalRigidTransform list" where
  "ik_solve res_ik tgt ts =
     (let len = segment_lengths ts;
          len_sum = foldl (+) 0 len;
          tgt' = ik_clamp_target tgt (pos (ts ! 0)) len_sum
      in ik_iterations (max_iterations res_ik) (bones_count res_ik) tgt' len ts)"

text \<open>The rotations from the new positions, \<^verbatim>\<open>for (i = bones_count - 2; i >= 0; --i)\<close>;
  the first argument is \<open>i + 1\<close>.\<close>

fun compute_rotations ::
  "QuatOps \<Rightarrow> nat \<Rightarrow> Vec3 list \<Rightarrow> LocalRigidTransform list \<Rightarrow> LocalRigidTransform list"
where
  "compute_rotations ops 0 old_pos ts = ts"
| "compute_rotations ops (Suc i) old_pos ts =
     (let old_d = old_pos ! (i + 1) - old_pos ! i;
          new_d = pos (ts ! (i + 1)) - pos (ts ! i);
          rel_rot = vec3ToVec3 ops old_d new_d
      in compute_rotations ops i old_pos (ts[i := (ts ! i)\<lparr>rot := rel_rot * rot (ts ! i)\<rparr>]))"

text \<open>Back to bone space, \<^verbatim>\<open>for (i = bones_count - 1; i > 0; --i)\<close>, from index \<open>i\<close>:
  the transforms and \<^verbatim>\<open>ik_out\<close>.\<close>

fun to_bone_space ::
  "nat \<Rightarrow> LocalRigidTransform list \<Rightarrow> LocalRigidTransform list \<Rightarrow>
   LocalRigidTransform list \<times> LocalRigidTransform list"
where
  "to_bone_space 0 ts ik_out = (ts, ik_out)"
| "to_bone_space (Suc k) ts ik_out =
     (let t = lrt_mul (inverted (ts ! k)) (ts ! Suc k)
      in to_bone_space k (ts[Suc k := t]) (ik_out[Suc k := (ik_out ! Suc k)\<lparr>pos := pos t\<rparr>]))"

text \<open>\<^verbatim>\<open>for (i = bones_count - 2; i > 0; --i) ik_out[i].rot = transforms[i].rot\<close>, from
  index \<open>i\<close>.\<close>

fun copy_rotations ::
  "nat \<Rightarrow> LocalRigidTransform list \<Rightarrow> LocalRigidTransform list \<Rightarrow> LocalRigidTransform list"
where
  "copy_rotations 0 ts ik_out = ik_out"
| "copy_rotations (Suc k) ts ik_out =
     copy_rotations k ts (ik_out[Suc k := (ik_out ! Suc k)\<lparr>rot := rot (ts ! Suc k)\<rparr>])"

text \<open>The blend of \<^verbatim>\<open>ik_out\<close> into the pose by the weight of the slot, joint by joint.\<close>

fun blend :: "QuatOps \<Rightarrow> real \<Rightarrow> nat list \<Rightarrow> LocalRigidTransform list \<Rightarrow> Pose \<Rightarrow> Pose" where
  "blend ops w (idx # rest) (out # outs) pose =
     blend ops w rest outs
       (pose\<lparr>positions := (positions pose)[idx := lerp (positions pose ! idx) (pos out) w],
             rotations := (rotations pose)[idx := nlerp ops (rotations pose ! idx) (rot out) w]\<rparr>)"
| "blend ops w indices outs pose = pose"

text \<open>
  \<^verbatim>\<open>updateIK\<close>. A bone name that does not resolve ends the call with the pose as it
  is. The local arrays of the source hold \<^verbatim>\<open>MAX_BONES_COUNT\<close> entries, the length of
  \<open>bones\<close>; a chain of no bone reads \<^verbatim>\<open>indices[0]\<close> before it is written. The entries of
  \<^verbatim>\<open>ik_out\<close> start at the identity here; the source writes every entry it reads.
\<close>

definition updateIK :: "QuatOps \<Rightarrow> IKRes \<Rightarrow> IK \<Rightarrow> Pose \<Rightarrow> Model \<Rightarrow> error + Pose" where
  "updateIK ops res_ik ik pose model =
     (let n = bones_count res_ik
      in if \<not> n \<le> length (bones res_ik) then Inl OutOfBounds
         else
           (case those (map (getBoneIndex model) (take n (bones res_ik))) of
              None \<Rightarrow> Inr pose
            | Some indices \<Rightarrow>
                if n = 0 then Inl OutOfBounds
                else if \<not> (indices ! 0 < length (m_bones model) \<and>
                           list_all (\<lambda>i. i < length (positions pose) \<and>
                                          i < length (rotations pose)) indices)
                then Inl OutOfBounds
                else
                  let first_bone = m_bones model ! (indices ! 0)
                  in (case (if 0 \<le> parent_idx first_bone
                            then getAbsolutePosition pose model (nat (parent_idx first_bone))
                            else Inr \<lparr>pos = 0, rot = IDENTITY\<rparr>) of
                        Inl err \<Rightarrow> Inl err
                      | Inr roots_parent \<Rightarrow>
                          let transforms0 = to_object_space pose indices roots_parent;
                              old_pos = map pos transforms0;
                              transforms1 = ik_solve res_ik (target ik) transforms0;
                              transforms2 = compute_rotations ops (n - 1) old_pos transforms1;
                              (transforms3, ik_out1) =
                                to_bone_space (n - 1) transforms2
                                  (replicate n \<lparr>pos = 0, rot = IDENTITY\<rparr>);
                              ik_out2 = copy_rotations (n - 2) transforms3 ik_out1;
                              ik_out3 = ik_out2[n - 1 := (ik_out2 ! (n - 1))
                                          \<lparr>rot := rotations pose ! (indices ! (n - 1))\<rparr>];
                              ik_out4 = ik_out3[0 := (ik_out3 ! 0)
                                          \<lparr>rot := (if 0 \<le> parent_idx first_bone
                                                   then conjugated (rot roots_parent) *
                                                        rot (transforms3 ! 0)
                                                   else rot (transforms3 ! 0))\<rparr>];
                              ik_out5 = ik_out4[0 := (ik_out4 ! 0)
                                          \<lparr>pos := positions pose ! (indices ! 0)\<rparr>]
                          in Inr (blend ops (weight ik) indices ik_out5 pose))))"

subsection \<open>The state-machine animator\<close>

text \<open>The controller asset's own behaviour (\<^verbatim>\<open>createRuntime\<close>, \<^verbatim>\<open>update\<close>, which
  yields the root motion, and \<^verbatim>\<open>getPose\<close>) and \<^verbatim>\<open>crc32\<close> are parameters.\<close>

record ControllerOps =
  createRuntime :: "Controller \<Rightarrow> u32 \<Rightarrow> RuntimeContext"
  controller_update :: "Controller \<Rightarrow> RuntimeContext \<Rightarrow> RuntimeContext \<times> LocalRigidTransform"
  controller_getPose :: "Controller \<Rightarrow> RuntimeContext \<Rightarrow> Pose \<Rightarrow> Pose"
  crc32 :: "string \<Rightarrow> u32"

text \<open>The loop of \<^verbatim>\<open>updateAnimator\<close> over the IK slots; \<open>idx\<close> is the index of the
  first slot of the list.\<close>

fun ik_slots_loop ::
  "QuatOps \<Rightarrow> IKRes list \<Rightarrow> Model \<Rightarrow> nat \<Rightarrow> IK list \<Rightarrow> Pose \<Rightarrow> error + Pose"
where
  "ik_slots_loop ops res_iks model idx [] pose = Inr pose"
| "ik_slots_loop ops res_iks model idx (ik # rest) pose =
     (if weight ik = 0 then Inr pose
      else if \<not> idx < length res_iks then Inl OutOfBounds
      else (case updateIK ops (res_iks ! idx) ik pose model of
              Inl err \<Rightarrow> Inl err
            | Inr pose' \<Rightarrow> ik_slots_loop ops res_iks model (idx + 1) rest pose'))"

text \<open>The root-motion block of \<^verbatim>\<open>updateAnimator\<close>: the three statements between
  \<^verbatim>\<open>getTransform\<close> and \<^verbatim>\<open>setTransform\<close>, in their order.\<close>

definition apply_root_motion :: "Universe \<Rightarrow> EntityRef \<Rightarrow> LocalRigidTransform \<Rightarrow> Universe" where
  "apply_root_motion u e root_motion =
     (let tr = getTransform u e;
          tr1 = tr\<lparr>tr_rot := tr_rot tr * rot root_motion\<rparr>;
          tr2 = tr1\<lparr>tr_pos := tr_pos tr1 + rotate (tr_rot tr1) (pos root_motion)\<rparr>
      in setTransform u e tr2)"

text \<open>The context \<^verbatim>\<open>updateAnimator\<close> hands to the controller: the animator's own, or
  a new one when it has none yet, with the model, the time step and the hash of the
  root bone set.\<close>

definition frame_context ::
  "ControllerOps \<Rightarrow> Animator \<Rightarrow> Controller \<Rightarrow> Model \<Rightarrow> real \<Rightarrow> RuntimeContext" where
  "frame_context cops animator res model dt =
     (case ctx animator of None \<Rightarrow> createRuntime cops res (default_set animator) | Some c \<Rightarrow> c)
       \<lparr>rc_model := Some model, time_delta := fromSeconds dt,
        root_bone_hash := crc32 cops ''RigRoot''\<rparr>"

definition updateAnimator ::
  "ControllerOps \<Rightarrow> QuatOps \<Rightarrow> PoseOps \<Rightarrow> Universe \<Rightarrow> RenderScene \<Rightarrow> Animator \<Rightarrow> real \<Rightarrow>
   error + Universe \<times> RenderScene \<times> Animator"
where
  "updateAnimator cops qops pops u rs animator dt =
     (case resource animator of
        None \<Rightarrow> Inr (u, rs, animator)
      | Some res \<Rightarrow>
          if \<not> c_ready res then Inr (u, rs, animator)
          else
            let animator1 =
                  (case ctx animator of
                     None \<Rightarrow> animator\<lparr>ctx := Some (createRuntime cops res (default_set animator))\<rparr>
                   | Some c \<Rightarrow> animator)
            in if \<not> hasComponent u (entity animator) MODEL_INSTANCE_TYPE
               then Inr (u, rs, animator1)
               else
                 (case getModelInstanceModel rs (entity animator) of
                    Inl err \<Rightarrow> Inl err
                  | Inr model \<Rightarrow>
                      if \<not> m_ready model then Inr (u, rs, animator1)
                      else
                        (case lockPose rs (entity animator) of
                           None \<Rightarrow> Inr (u, rs, animator1)
                         | Some pose \<Rightarrow>
                             let (c1, root_motion) =
                                   controller_update cops res
                                     (frame_context cops animator res model dt);
                                 u1 = (if USE_ROOT_MOTION res
                                       then apply_root_motion u (entity animator) root_motion
                                       else u);
                                 pose1 = model_getRelativePose pops model pose;
                                 pose2 = controller_getPose cops res c1 pose1
                             in (case ik_slots_loop qops (m_ik res) model 0
                                        (inverse_kinematics animator) pose2 of
                                   Inl err \<Rightarrow> Inl err
                                 | Inr pose3 \<Rightarrow>
                                     Inr (u1,
                                          unlockPose rs (entity animator)
                                            (computeAbsolute pops pose3 model),
                                          animator1\<lparr>ctx := Some c1\<rparr>)))))"

text \<open>For the examples: pose operations that leave the pose as it is, a universe in
  which every entity has a model instance, and a render scene with a ready one-bone
  model for every entity.\<close>

definition id_PoseOps :: PoseOps where
  "id_PoseOps =
     \<lparr>model_getRelativePose = (\<lambda>m p. p),
      animation_getRelativePose = (\<lambda>a t p m. p),
      computeAbsolute = (\<lambda>p m. p)\<rparr>"

definition universe1 :: Universe where
  "universe1 =
     \<lparr>transforms = (\<lambda>_. \<lparr>tr_pos = Vec3 0 0 0, tr_rot = Quat 0 0 0 1, tr_scale = 1\<rparr>),
      components = (\<lambda>_. {MODEL_INSTANCE_TYPE, ANIMABLE_TYPE})\<rparr>"

definition render_scene1 :: RenderScene where
  "render_scene1 =
     (\<lambda>_. Some \<lparr>mi_model = Some \<lparr>m_ready = True, m_bones = [\<lparr>parent_idx = -1\<rparr>],
                                   getBoneIndex = Map.empty\<rparr>,
                 mi_pose = Some \<lparr>positions = [Vec3 0 0 0], rotations = [Quat 0 0 0 1]\<rparr>\<rparr>)"

text \<open>The clip of the scenario, two seconds long, bound to entity 7 at time 0.\<close>

definition walk_animable :: Animable where
  "walk_animable =
     \<lparr>an_entity = 7, an_animation = Some \<lparr>a_ready = True, a_length = 2\<rparr>, an_time = 0\<rparr>"

text \<open>The sample frame of \<^verbatim>\<open>applyPropertyAnimator\<close>, its first two statements, when
  the frame index fits an \<^verbatim>\<open>int\<close>.\<close>

definition sample_frame :: "PropertyAnimator \<Rightarrow> PropertyAnimation \<Rightarrow> int" where
  "sample_frame animator anim =
     truncate_real (time animator * fps anim + 1 / 2) smod last (frames (curves anim ! 0))"

text \<open>For the examples: the asset of the scenario, one curve with the keys (0, 0.0) and
  (10, 1.0) at 10 frames per second, writing the property \<open>intensity\<close> of a light; and
  a scene with one animator of it, on entity 1, at time 0.\<close>

definition ramp_curve :: Curve where
  "ramp_curve =
     \<lparr>cmp_type = OtherComponent ''point_light'', property = ''intensity'',
      keyframes = [(0, 0), (10, 1)]\<rparr>"

definition ramp :: PropertyAnimation where
  "ramp = \<lparr>pa_ready = True, fps = 10, curves = [ramp_curve]\<rparr>"

definition ramp_scene :: PropertyScene where
  "ramp_scene =
     \<lparr>m_property_animators = [(1, \<lparr>animation = Some ramp, flags = 0, time = 0\<rparr>)],
      m_properties = Map.empty\<rparr>"

text \<open>An asset of two curves at 10 frames per second: the first, with the keys (0, 0.0)
  and (20, 4.0), writes the property \<open>range\<close> of the light; the second is the curve of
  the scenario, whose last keyframe is at frame 10.\<close>

definition range_curve :: Curve where
  "range_curve =
     \<lparr>cmp_type = OtherComponent ''point_light'', property = ''range'',
      keyframes = [(0, 0), (20, 4)]\<rparr>"

definition two_curves :: PropertyAnimation where
  "two_curves = \<lparr>pa_ready = True, fps = 10, curves = [range_curve, ramp_curve]\<rparr>"

text \<open>A scene whose one animator, on entity 1, has no asset bound.\<close>

definition unbound_scene :: PropertyScene where
  "unbound_scene =
     \<lparr>m_property_animators = [(1, \<lparr>animation = None, flags = 0, time = 0\<rparr>)],
      m_properties = Map.empty\<rparr>"

text \<open>For the examples: a ready controller that declares the float input \<open>speed\<close> at
  offset 0 and the bool input \<open>crouch\<close> at offset 4 in an array of four inputs, and a
  store whose one animator, on entity 10, is bound to it with a live context of eight
  zero bytes.\<close>

definition controller2 :: Controller where
  "controller2 =
     \<lparr>c_ready = True, USE_ROOT_MOTION = False,
      m_inputs = \<lparr>inputs = [\<lparr>in_type = FLOAT, in_offset = 0, in_name = ''speed''\<rparr>,
                             \<lparr>in_type = BOOL, in_offset = 4, in_name = ''crouch''\<rparr>,
                             \<lparr>in_type = EMPTY, in_offset = 0, in_name = []\<rparr>,
                             \<lparr>in_type = EMPTY, in_offset = 0, in_name = []\<rparr>],
                   inputs_count = 2\<rparr>,
      m_ik = []\<rparr>"

definition context8 :: "u8 list \<Rightarrow> RuntimeContext" where
  "context8 mem = \<lparr>rc_inputs = mem, rc_model = None, time_delta = 0, root_bone_hash = 0\<rparr>"

definition input_store :: "u8 list \<Rightarrow> AnimatorStore" where
  "input_store mem =
     \<lparr>m_universe = \<lparr>transforms = (\<lambda>_. \<lparr>tr_pos = Vec3 0 0 0, tr_rot = Quat 0 0 0 1, tr_scale = 1\<rparr>),
                     components = (\<lambda>_. {ANIMATOR_TYPE})\<rparr>,
      m_animators = [\<lparr>entity = 10, resource = Some controller2, default_set = 0,
                      ctx = Some (context8 mem),
                      inverse_kinematics = replicate 4 \<lparr>weight = 0, target = Vec3 0 0 0\<rparr>\<rparr>],
      m_animator_map = [10 \<mapsto> 0],
      m_event_stream = []\<rparr>"

text \<open>Three records for entity 10, in the order they were appended: the float input of
  slot 0 set to 1.0 (pattern \<open>0x3F800000\<close>), a record of another type with a payload
  of three bytes, and the bool input of slot 1 set to true.\<close>

definition three_records :: "EventRecord list" where
  "three_records =
     [SetInputRecord 10 8 0 [0, 0, 0x80, 0x3F],
      OtherRecord 0x1234 10 [9, 9, 9],
      SetInputRecord 10 8 1 [1, 0, 0, 0]]"

text \<open>For the examples: a controller with root motion whose update yields the delta
  (1, 0, 0) with a half turn about the z axis and leaves context and pose alone; an
  animator of it on entity 7 with all four IK weights 0; and a universe in which no
  entity has a model instance.\<close>

definition root_controller :: Controller where
  "root_controller =
     \<lparr>c_ready = True, USE_ROOT_MOTION = True,
      m_inputs = \<lparr>inputs = [], inputs_count = 0\<rparr>,
      m_ik = replicate 4 \<lparr>max_iterations = 1, bones_count = 0, bones = []\<rparr>\<rparr>"

definition half_turn :: LocalRigidTransform where
  "half_turn = \<lparr>pos = Vec3 1 0 0, rot = Quat 0 0 1 0\<rparr>"

definition half_turn_ops :: ControllerOps where
  "half_turn_ops =
     \<lparr>createRuntime = (\<lambda>res set.
        \<lparr>rc_inputs = [], rc_model = None, time_delta = 0, root_bone_hash = 0\<rparr>),
      controller_update = (\<lambda>res c. (c, half_turn)),
      controller_getPose = (\<lambda>res c p. p),
      crc32 = (\<lambda>name. 0)\<rparr>"

definition plain_QuatOps :: QuatOps where
  "plain_QuatOps = \<lparr>vec3ToVec3 = (\<lambda>a b. IDENTITY), nlerp = (\<lambda>a b t. a)\<rparr>"

definition root_animator :: Animator where
  "root_animator =
     \<lparr>entity = 7, resource = Some root_controller, default_set = 0, ctx = None,
      inverse_kinematics = replicate 4 \<lparr>weight = 0, target = Vec3 0 0 0\<rparr>\<rparr>"

definition universe0 :: Universe where
  "universe0 =
     \<lparr>transforms = (\<lambda>_. \<lparr>tr_pos = Vec3 0 0 0, tr_rot = Quat 0 0 0 1, tr_scale = 1\<rparr>),
      components = (\<lambda>_. {ANIMATOR_TYPE})\<rparr>"

text \<open>For the examples: chains along the x axis with joints one unit apart, in object
  space; the controller's description of a chain of \<open>n\<close> bones solved in one
  iteration; a model of two bones with its pose; and IK slots that reach for the
  point (0, 4, 0), for the point (4, 0, 0), or are switched off.\<close>

definition joint :: "Vec3 \<Rightarrow> LocalRigidTransform" where
  "joint p = \<lparr>pos = p, rot = IDENTITY\<rparr>"

definition arm2 :: "LocalRigidTransform list" where
  "arm2 = [joint (Vec3 0 0 0), joint (Vec3 1 0 0)]"

definition arm3 :: "LocalRigidTransform list" where
  "arm3 = [joint (Vec3 0 0 0), joint (Vec3 1 0 0), joint (Vec3 2 0 0)]"

definition chain_res :: "nat \<Rightarrow> IKRes" where
  "chain_res n = \<lparr>max_iterations = 1, bones_count = n, bones = [100, 200, 300, 0, 0, 0, 0, 0]\<rparr>"

definition model2 :: Model where
  "model2 =
     \<lparr>m_ready = True, m_bones = [\<lparr>parent_idx = -1\<rparr>, \<lparr>parent_idx = 0\<rparr>],
      getBoneIndex = [100 \<mapsto> 0, 200 \<mapsto> 1]\<rparr>"

definition pose2 :: Pose where
  "pose2 = \<lparr>positions = [Vec3 0 0 0, Vec3 1 0 0], rotations = [IDENTITY, IDENTITY]\<rparr>"

definition reach_up :: IK where
  "reach_up = \<lparr>weight = 1, target = Vec3 0 4 0\<rparr>"

definition reach_right :: IK where
  "reach_right = \<lparr>weight = 1, target = Vec3 4 0 0\<rparr>"

definition switched_off :: IK where
  "switched_off = \<lparr>weight = 0, target = Vec3 4 0 0\<rparr>"

text \<open>A store of three animators, on the entities 10, 20 and 30, for the examples.\<close>

definition store3 :: AnimatorStore where
  "store3 =
     \<lparr>m_universe = \<lparr>transforms = (\<lambda>_. \<lparr>tr_pos = Vec3 0 0 0, tr_rot = Quat 0 0 0 1, tr_scale = 1\<rparr>),
                     components = (\<lambda>_. {ANIMATOR_TYPE})\<rparr>,
      m_animators = [new_Animator\<lparr>entity := 10\<rparr>, new_Animator\<lparr>entity := 20\<rparr>,
                     new_Animator\<lparr>entity := 30\<rparr>],
      m_animator_map = [10 \<mapsto> 0, 20 \<mapsto> 1, 30 \<mapsto> 2],
      m_event_stream = []\<rparr>"

section \<open>The Animator collection keeps its invariant\<close>

lemma setAnimatorSource_entity: "entity (setAnimatorSource a r) = entity a"
  by (simp add: setAnimatorSource_def)

lemma animators_inv_inj:
  assumes "animators_inv s" "i < length (m_animators s)" "j < length (m_animators s)"
    and "entity (m_animators s ! i) = entity (m_animators s ! j)"
  shows "i = j"
proof -
  have "m_animator_map s (entity (m_animators s ! i)) = Some i"
    using assms(1,2) by (simp add: animators_inv_def)
  moreover have "m_animator_map s (entity (m_animators s ! j)) = Some j"
    using assms(1,3) by (simp add: animators_inv_def)
  ultimately have "Some i = Some j"
    using assms(4) by metis
  then show ?thesis by simp
qed

lemma createAnimator_inv:
  assumes inv: "animators_inv s" and fresh: "m_animator_map s e = None"
  shows "animators_inv (createAnimator s e)"
proof -
  let ?n = "length (m_animators s)"
  let ?s' = "createAnimator s e"
  have anims: "m_animators ?s' = m_animators s @ [new_Animator\<lparr>entity := e\<rparr>]"
    and map': "m_animator_map ?s' = (m_animator_map s)(e \<mapsto> ?n)"
    by (simp_all add: createAnimator_def Let_def)
  have no_e: "entity (m_animators s ! i) \<noteq> e" if "i < ?n" for i
    using inv fresh that by (auto simp: animators_inv_def)
  have fwd: "i < length (m_animators ?s') \<and> entity (m_animators ?s' ! i) = e'"
    if "m_animator_map ?s' e' = Some i" for e' i
  proof (cases "e' = e")
    case True
    with that have "i = ?n" by (simp add: map')
    with True show ?thesis by (simp add: anims)
  next
    case False
    with that have "m_animator_map s e' = Some i" by (simp add: map')
    with inv have "i < ?n" "entity (m_animators s ! i) = e'"
      by (simp_all add: animators_inv_def)
    then show ?thesis by (simp add: anims nth_append)
  qed
  have bwd: "m_animator_map ?s' (entity (m_animators ?s' ! i)) = Some i"
    if "i < length (m_animators ?s')" for i
  proof (cases "i < ?n")
    case True
    with inv have "m_animator_map s (entity (m_animators s ! i)) = Some i"
      by (simp add: animators_inv_def)
    with True no_e [OF True] show ?thesis by (simp add: anims map' nth_append)
  next
    case False
    with that have "i = ?n" by (simp add: anims)
    then show ?thesis by (simp add: anims map')
  qed
  show ?thesis
    unfolding animators_inv_def using fwd bwd by blast
qed

lemma destroyAnimator_result:
  assumes inv: "animators_inv s" and bound: "m_animator_map s e = Some idx"
  shows "destroyAnimator s e =
     Inr (s\<lparr>m_animator_map :=
              ((m_animator_map s)(entity (last (m_animators s)) \<mapsto> idx))(e := None),
            m_animators :=
              butlast ((m_animators s)[idx := last ((m_animators s)
                [idx := setAnimatorSource (m_animators s ! idx) None])]),
            m_universe := onComponentDestroyed (m_universe s) e ANIMATOR_TYPE\<rparr>)"
proof -
  let ?as = "m_animators s"
  let ?as1 = "?as[idx := setAnimatorSource (?as ! idx) None]"
  from inv bound have idx: "idx < length ?as" and e: "entity (?as ! idx) = e"
    by (simp_all add: animators_inv_def)
  then have ne: "?as \<noteq> []" by auto
  have last_e: "entity (last ?as1) = entity (last ?as)"
  proof (cases "idx = length ?as - 1")
    case True
    with idx have "last ?as1 = setAnimatorSource (?as ! idx) None"
      by (simp add: last_list_update ne)
    moreover from True ne have "last ?as = ?as ! idx"
      by (simp add: last_conv_nth)
    ultimately show ?thesis by (simp add: setAnimatorSource_entity)
  next
    case False
    then show ?thesis by (simp add: last_list_update ne)
  qed
  from inv ne have "m_animator_map s (entity (last ?as)) = Some (length ?as - 1)"
    by (simp add: animators_inv_def last_conv_nth)
  with idx bound last_e show ?thesis
    by (simp add: destroyAnimator_def Let_def swapAndPop_def)
qed

lemma destroyAnimator_inv:
  assumes inv: "animators_inv s" and bound: "m_animator_map s e = Some idx"
    and res: "destroyAnimator s e = Inr s'"
  shows "animators_inv s'"
proof -
  let ?as = "m_animators s"
  let ?n = "length ?as"
  let ?as1 = "?as[idx := setAnimatorSource (?as ! idx) None]"
  let ?le = "entity (last ?as)"
  from inv bound have idx: "idx < ?n" and e: "entity (?as ! idx) = e"
    by (simp_all add: animators_inv_def)
  then have ne: "?as \<noteq> []" by auto
  from res have s': "s' = s\<lparr>m_animator_map := ((m_animator_map s)(?le \<mapsto> idx))(e := None),
      m_animators := butlast (?as[idx := last ?as1]),
      m_universe := onComponentDestroyed (m_universe s) e ANIMATOR_TYPE\<rparr>"
    using destroyAnimator_result [OF inv bound] by simp
  have len: "length (m_animators s') = ?n - 1"
    by (simp add: s')
  have map': "m_animator_map s' = ((m_animator_map s)(?le \<mapsto> idx))(e := None)"
    by (simp add: s')
  have ent1: "entity (last ?as1) = ?le"
  proof (cases "idx = ?n - 1")
    case True
    with idx have "last ?as1 = setAnimatorSource (?as ! idx) None"
      by (simp add: last_list_update ne)
    moreover from True ne have "last ?as = ?as ! idx"
      by (simp add: last_conv_nth)
    ultimately show ?thesis by (simp add: setAnimatorSource_entity)
  next
    case False
    then show ?thesis by (simp add: last_list_update ne)
  qed
  have le: "?le = entity (?as ! (?n - 1))"
    using ne by (simp add: last_conv_nth)
  have ent': "entity (m_animators s' ! i) = (if i = idx then ?le else entity (?as ! i))"
    if "i < ?n - 1" for i
    using that idx ent1 by (simp add: s' nth_butlast)
  have inj: "i = j" if "i < ?n" "j < ?n" "entity (?as ! i) = entity (?as ! j)" for i j
    using animators_inv_inj [OF inv that] .
  have fwd: "i < length (m_animators s') \<and> entity (m_animators s' ! i) = e'"
    if m: "m_animator_map s' e' = Some i" for e' i
  proof -
    from m have ne_e: "e' \<noteq> e" by (auto simp: map' split: if_splits)
    show ?thesis
    proof (cases "e' = ?le")
      case True
      with m ne_e have i: "i = idx" by (simp add: map')
      have "idx \<noteq> ?n - 1"
        using True ne_e e le by auto
      with idx have "idx < ?n - 1" by simp
      with i True show ?thesis by (simp add: len ent')
    next
      case False
      with m ne_e have old: "m_animator_map s e' = Some i" by (simp add: map')
      with inv have i: "i < ?n" and ei: "entity (?as ! i) = e'"
        by (simp_all add: animators_inv_def)
      from ei False le have "i \<noteq> ?n - 1" by auto
      with i have i': "i < ?n - 1" by simp
      from ei ne_e e have "i \<noteq> idx" by auto
      with i' ei show ?thesis by (simp add: len ent')
    qed
  qed
  have bwd: "m_animator_map s' (entity (m_animators s' ! i)) = Some i"
    if "i < length (m_animators s')" for i
  proof -
    from that have i: "i < ?n - 1" by (simp add: len)
    then have i_n: "i < ?n" and last_n: "?n - 1 < ?n" by simp_all
    show ?thesis
    proof (cases "i = idx")
      case True
      have "?le \<noteq> e"
      proof
        assume "?le = e"
        with le e have "entity (?as ! (?n - 1)) = entity (?as ! idx)" by simp
        from inj [OF last_n idx this] i True show False by simp
      qed
      with True i show ?thesis by (simp add: ent' map')
    next
      case False
      have "entity (?as ! i) \<noteq> e"
      proof
        assume "entity (?as ! i) = e"
        with e have "entity (?as ! i) = entity (?as ! idx)" by simp
        from inj [OF i_n idx this] False show False by simp
      qed
      moreover have "entity (?as ! i) \<noteq> ?le"
      proof
        assume "entity (?as ! i) = ?le"
        with le have "entity (?as ! i) = entity (?as ! (?n - 1))" by simp
        from inj [OF i_n last_n this] i show False by simp
      qed
      moreover from inv i_n have "m_animator_map s (entity (?as ! i)) = Some i"
        by (simp add: animators_inv_def)
      ultimately show ?thesis
        using False ent' [OF i] by (simp add: map')
    qed
  qed
  show ?thesis
    unfolding animators_inv_def using fwd bwd by blast
qed

lemma destroyAnimator_others:
  assumes inv: "animators_inv s" and bound: "m_animator_map s e = Some idx"
    and res: "destroyAnimator s e = Inr s'"
    and other: "e' \<noteq> e" "m_animator_map s e' = Some i"
  shows "\<exists>j. m_animator_map s' e' = Some j \<and> m_animators s' ! j = m_animators s ! i"
proof -
  let ?as = "m_animators s"
  let ?n = "length ?as"
  let ?as1 = "?as[idx := setAnimatorSource (?as ! idx) None]"
  let ?le = "entity (last ?as)"
  from inv bound have idx: "idx < ?n" and e: "entity (?as ! idx) = e"
    by (simp_all add: animators_inv_def)
  then have ne: "?as \<noteq> []" by auto
  from inv other have i: "i < ?n" and ei: "entity (?as ! i) = e'"
    by (simp_all add: animators_inv_def)
  from ei e other(1) have i_idx: "i \<noteq> idx" by auto
  from res have s': "s' = s\<lparr>m_animator_map := ((m_animator_map s)(?le \<mapsto> idx))(e := None),
      m_animators := butlast (?as[idx := last ?as1]),
      m_universe := onComponentDestroyed (m_universe s) e ANIMATOR_TYPE\<rparr>"
    using destroyAnimator_result [OF inv bound] by simp
  show ?thesis
  proof (cases "i = ?n - 1")
    case True
    with ei ne have le: "?le = e'" by (simp add: last_conv_nth)
    from True i_idx idx have "idx < ?n - 1" by simp
    moreover from True i_idx have "last ?as1 = last ?as"
      by (simp add: last_list_update ne)
    moreover from True ne have "last ?as = ?as ! i" by (simp add: last_conv_nth)
    ultimately have "m_animators s' ! idx = ?as ! i"
      by (simp add: s' nth_butlast)
    moreover from le other(1) have "m_animator_map s' e' = Some idx"
      by (simp add: s')
    ultimately show ?thesis by blast
  next
    case False
    with i have i': "i < ?n - 1" by simp
    have "?le \<noteq> e'"
    proof
      assume "?le = e'"
      with ei ne have "entity (?as ! i) = entity (?as ! (?n - 1))"
        by (simp add: last_conv_nth)
      from animators_inv_inj [OF inv i _ this] ne False show False by simp
    qed
    with other have "m_animator_map s' e' = Some i" by (simp add: s')
    moreover from i' i_idx have "m_animators s' ! i = ?as ! i"
      by (simp add: s' nth_butlast)
    ultimately show ?thesis by blast
  qed
qed

lemma store3_inv: "animators_inv store3"
  unfolding animators_inv_def
proof (intro conjI allI impI)
  fix e i
  assume "m_animator_map store3 e = Some i"
  then show "i < length (m_animators store3)"
    by (auto simp: store3_def split: if_splits)
next
  fix e i
  assume "m_animator_map store3 e = Some i"
  then show "entity (m_animators store3 ! i) = e"
    by (auto simp: store3_def split: if_splits)
next
  fix i
  assume "i < length (m_animators store3)"
  then have "i = 0 \<or> i = 1 \<or> i = 2"
    by (auto simp: store3_def)
  then show "m_animator_map store3 (entity (m_animators store3 ! i)) = Some i"
    by (auto simp: store3_def)
qed

text \<open>
  C9. The invariant of the Animator collection (each map entry points at the record of
  its entity, one entry per record) holds after \<open>createAnimator\<close> on an entity that has
  no animator yet, and after \<open>destroyAnimator\<close> on an entity that has one.
  \<open>destroyAnimator\<close> succeeds there, removes the entity's entry, shrinks the array
  by one, puts the last record into the freed slot with its map entry fixed up, and
  keeps the record of every other entity; this covers the destroyed record being
  the last one.
\<close>

theorem animator_collection_invariant:
  assumes inv: "animators_inv s"
  shows "(m_animator_map s e = None \<longrightarrow>
            animators_inv (createAnimator s e) \<and>
            m_animator_map (createAnimator s e) e = Some (length (m_animators s)) \<and>
            entity (m_animators (createAnimator s e) ! length (m_animators s)) = e) \<and>
         (\<forall>idx. m_animator_map s e = Some idx \<longrightarrow>
            (\<exists>s'. destroyAnimator s e = Inr s' \<and> animators_inv s' \<and>
               m_animator_map s' e = None \<and>
               length (m_animators s') = length (m_animators s) - 1 \<and>
               (idx < length (m_animators s) - 1 \<longrightarrow>
                  m_animator_map s' (entity (last (m_animators s))) = Some idx \<and>
                  m_animators s' ! idx = last (m_animators s)) \<and>
               (\<forall>e' i. e' \<noteq> e \<longrightarrow> m_animator_map s e' = Some i \<longrightarrow>
                  (\<exists>j. m_animator_map s' e' = Some j \<and>
                       m_animators s' ! j = m_animators s ! i))))"
proof (intro conjI allI impI)
  assume fresh: "m_animator_map s e = None"
  show "animators_inv (createAnimator s e)"
    using createAnimator_inv [OF inv fresh] .
  show "m_animator_map (createAnimator s e) e = Some (length (m_animators s))"
    by (simp add: createAnimator_def Let_def)
  show "entity (m_animators (createAnimator s e) ! length (m_animators s)) = e"
    by (simp add: createAnimator_def Let_def)
next
  fix idx
  assume bound: "m_animator_map s e = Some idx"
  let ?as = "m_animators s"
  obtain s' where res: "destroyAnimator s e = Inr s'"
    using destroyAnimator_result [OF inv bound] by blast
  from res have s': "s' = s\<lparr>m_animator_map :=
        ((m_animator_map s)(entity (last ?as) \<mapsto> idx))(e := None),
      m_animators := butlast (?as[idx := last (?as
        [idx := setAnimatorSource (?as ! idx) None])]),
      m_universe := onComponentDestroyed (m_universe s) e ANIMATOR_TYPE\<rparr>"
    using destroyAnimator_result [OF inv bound] by simp
  from inv bound have idx: "idx < length ?as" and e: "entity (?as ! idx) = e"
    by (simp_all add: animators_inv_def)
  then have ne: "?as \<noteq> []" by auto
  have moved: "m_animator_map s' (entity (last ?as)) = Some idx \<and>
      m_animators s' ! idx = last ?as" if lt: "idx < length ?as - 1"
  proof -
    have "entity (last ?as) \<noteq> e"
    proof
      assume "entity (last ?as) = e"
      with e ne have "entity (?as ! (length ?as - 1)) = entity (?as ! idx)"
        by (simp add: last_conv_nth)
      from animators_inv_inj [OF inv _ idx this] ne lt show False by simp
    qed
    moreover from lt have "last (?as[idx := setAnimatorSource (?as ! idx) None]) = last ?as"
      by (simp add: last_list_update ne)
    ultimately show ?thesis using lt by (simp add: s' nth_butlast)
  qed
  have "animators_inv s'"
    using destroyAnimator_inv [OF inv bound res] .
  moreover have "m_animator_map s' e = None"
    by (simp add: s')
  moreover have "length (m_animators s') = length ?as - 1"
    by (simp add: s')
  moreover have "\<forall>e' i. e' \<noteq> e \<longrightarrow> m_animator_map s e' = Some i \<longrightarrow>
      (\<exists>j. m_animator_map s' e' = Some j \<and> m_animators s' ! j = ?as ! i)"
    using destroyAnimator_others [OF inv bound res] by blast
  ultimately show "\<exists>s'. destroyAnimator s e = Inr s' \<and> animators_inv s' \<and>
      m_animator_map s' e = None \<and>
      length (m_animators s') = length ?as - 1 \<and>
      (idx < length ?as - 1 \<longrightarrow>
         m_animator_map s' (entity (last ?as)) = Some idx \<and>
         m_animators s' ! idx = last ?as) \<and>
      (\<forall>e' i. e' \<noteq> e \<longrightarrow> m_animator_map s e' = Some i \<longrightarrow>
         (\<exists>j. m_animator_map s' e' = Some j \<and> m_animators s' ! j = ?as ! i))"
    using res moved by blast
qed

text \<open>On the three-animator store: creating entity 40, destroying the first record
  (entity 10, so that the record of entity 30 moves to slot 0) and destroying the last
  record (entity 30).\<close>

theorem animator_collection_invariant_witness:
  "animators_inv store3 \<and>
   animators_inv (createAnimator store3 40) \<and>
   m_animator_map (createAnimator store3 40) 40 = Some 3 \<and>
   (\<exists>s'. destroyAnimator store3 10 = Inr s' \<and> animators_inv s' \<and>
      map entity (m_animators s') = [30, 20] \<and>
      m_animator_map s' 30 = Some 0 \<and> m_animator_map s' 10 = None) \<and>
   (\<exists>s'. destroyAnimator store3 30 = Inr s' \<and> animators_inv s' \<and>
      map entity (m_animators s') = [10, 20] \<and>
      m_animator_map s' 10 = Some 0 \<and> m_animator_map s' 30 = None)"
proof -
  have fresh: "m_animator_map store3 40 = None"
    and b10: "m_animator_map store3 10 = Some 0"
    and b30: "m_animator_map store3 30 = Some 2"
    by (simp_all add: store3_def)
  from animator_collection_invariant [OF store3_inv, of 40] fresh
  have c: "animators_inv (createAnimator store3 40) \<and>
      m_animator_map (createAnimator store3 40) 40 = Some 3"
    by (simp add: store3_def)
  from animator_collection_invariant [OF store3_inv, of 10] b10
  obtain s1 where s1: "destroyAnimator store3 10 = Inr s1" "animators_inv s1"
    by blast
  from s1(1) have v1: "map entity (m_animators s1) = [30, 20] \<and>
      m_animator_map s1 30 = Some 0 \<and> m_animator_map s1 10 = None"
    by (auto simp: destroyAnimator_def store3_def Let_def swapAndPop_def
        setAnimatorSource_def new_Animator_def)
  from animator_collection_invariant [OF store3_inv, of 30] b30
  obtain s2 where s2: "destroyAnimator store3 30 = Inr s2" "animators_inv s2"
    by blast
  from s2(1) have v2: "map entity (m_animators s2) = [10, 20] \<and>
      m_animator_map s2 10 = Some 0 \<and> m_animator_map s2 30 = None"
    by (auto simp: destroyAnimator_def store3_def Let_def swapAndPop_def
        setAnimatorSource_def new_Animator_def)
  have d1: "\<exists>s'. destroyAnimator store3 10 = Inr s' \<and> animators_inv s' \<and>
      map entity (m_animators s') = [30, 20] \<and>
      m_animator_map s' 30 = Some 0 \<and> m_animator_map s' 10 = None"
    using s1 v1 by (intro exI [of _ s1]) simp
  have d2: "\<exists>s'. destroyAnimator store3 30 = Inr s' \<and> animators_inv s' \<and>
      map entity (m_animators s') = [10, 20] \<and>
      m_animator_map s' 10 = Some 0 \<and> m_animator_map s' 30 = None"
    using s2 v2 by (intro exI [of _ s2]) simp
  show ?thesis
    using store3_inv c d1 d2 by (intro conjI) simp_all
qed

section \<open>Clip time wraps modulo the clip length\<close>

lemma time_mod_bounds:
  assumes "0 < l"
  shows "0 \<le> time_mod t l" and "time_mod t l < l"
proof -
  let ?q = "real_of_int \<lfloor>t / l\<rfloor>"
  from assms have cancel: "t / l * l = t" by simp
  have "?q * l \<le> t / l * l"
    using assms by (intro mult_right_mono) simp_all
  with cancel have lo: "l * ?q \<le> t"
    by (simp only: mult.commute [of l])
  have "t / l * l < (?q + 1) * l"
    using assms by (intro mult_strict_right_mono) linarith+
  with cancel have hi: "t < l * ?q + l"
    by (simp only: distrib_right mult_1 mult.commute [of l])
  from lo show "0 \<le> time_mod t l" by (simp add: time_mod_def)
  from hi show "time_mod t l < l" by (simp add: time_mod_def)
qed

lemma updateAnimable_step:
  assumes clip: "an_animation a = Some anim" "a_ready anim" "a_length anim \<noteq> 0"
    and avail: "pose_available u rs (an_entity a)"
  shows "\<exists>rs'. updateAnimable ops u rs a dt =
           Inr (rs', a\<lparr>an_time := time_mod (an_time a + dt) (a_length anim)\<rparr>) \<and>
         pose_available u rs' (an_entity a)"
proof -
  from avail obtain mi m p where mi: "rs (an_entity a) = Some mi"
    and m: "mi_model mi = Some m" "m_ready m" and p: "mi_pose mi = Some p"
    and has: "hasComponent u (an_entity a) MODEL_INSTANCE_TYPE"
    by (auto simp: pose_available_def split: option.splits)
  let ?p' = "computeAbsolute ops
      (animation_getRelativePose ops anim (an_time a) (model_getRelativePose ops m p) m) m"
  let ?rs' = "unlockPose rs (an_entity a) ?p'"
  have "updateAnimable ops u rs a dt =
      Inr (?rs', a\<lparr>an_time := time_mod (an_time a + dt) (a_length anim)\<rparr>)"
    using clip mi m p has
    by (simp add: updateAnimable_def getModelInstanceModel_def lockPose_def Let_def
        fromSeconds_def)
  moreover have "pose_available u ?rs' (an_entity a)"
    using mi m has by (simp add: pose_available_def unlockPose_def)
  ultimately show ?thesis by blast
qed

text \<open>
  C3. For an Animable whose clip is bound and ready and has length \<open>L > 0\<close>, with the
  model present and ready and the pose acquirable, \<open>updateAnimable\<close> with \<open>dt \<ge> 0\<close>
  returns with the elapsed time set to \<open>(old time + dt) mod L\<close>, which lies in
  \<open>[0, L)\<close>, and the guards still hold for the next update; for a clip of 2 seconds
  at time 0, updating by 1.5 and then by 1.0 gives the time 0.5.
\<close>

theorem updateAnimable_wraps_time:
  assumes clip: "an_animation a = Some anim" "a_ready anim" "0 < a_length anim"
    and avail: "pose_available u rs (an_entity a)"
    and dt: "0 \<le> dt"
  shows "(\<exists>rs'. updateAnimable ops u rs a dt =
             Inr (rs', a\<lparr>an_time := time_mod (an_time a + dt) (a_length anim)\<rparr>) \<and>
           pose_available u rs' (an_entity a)) \<and>
         0 \<le> time_mod (an_time a + dt) (a_length anim) \<and>
         time_mod (an_time a + dt) (a_length anim) < a_length anim \<and>
         (a_length anim = 2 \<and> an_time a = 0 \<longrightarrow>
           (\<exists>rs1 a1 rs2 a2. updateAnimable ops u rs a (3 / 2) = Inr (rs1, a1) \<and>
              updateAnimable ops u rs1 a1 1 = Inr (rs2, a2) \<and> an_time a2 = 1 / 2))"
proof (intro conjI impI)
  from clip have nz: "a_length anim \<noteq> 0" by simp
  show "\<exists>rs'. updateAnimable ops u rs a dt =
      Inr (rs', a\<lparr>an_time := time_mod (an_time a + dt) (a_length anim)\<rparr>) \<and>
      pose_available u rs' (an_entity a)"
    using updateAnimable_step [OF clip(1,2) nz avail] .
  show "0 \<le> time_mod (an_time a + dt) (a_length anim)"
    using time_mod_bounds(1) [OF clip(3)] .
  show "time_mod (an_time a + dt) (a_length anim) < a_length anim"
    using time_mod_bounds(2) [OF clip(3)] .
next
  assume scen: "a_length anim = 2 \<and> an_time a = 0"
  from clip have nz: "a_length anim \<noteq> 0" by simp
  let ?a1 = "a\<lparr>an_time := time_mod (an_time a + 3 / 2) (a_length anim)\<rparr>"
  from updateAnimable_step [OF clip(1,2) nz avail, of ops "3 / 2"]
  obtain rs1 where s1: "updateAnimable ops u rs a (3 / 2) = Inr (rs1, ?a1)"
    and av1: "pose_available u rs1 (an_entity a)"
    by blast
  have clip1: "an_animation ?a1 = Some anim" and ent1: "an_entity ?a1 = an_entity a"
    using clip(1) by simp_all
  let ?a2 = "?a1\<lparr>an_time := time_mod (an_time ?a1 + 1) (a_length anim)\<rparr>"
  from updateAnimable_step [OF clip1 clip(2) nz, of u rs1 ops 1] av1 ent1
  obtain rs2 where s2: "updateAnimable ops u rs1 ?a1 1 = Inr (rs2, ?a2)"
    by auto
  have "an_time ?a2 = 1 / 2"
    using scen by (simp add: time_mod_def)
  with s1 s2 show "\<exists>rs1 a1 rs2 a2. updateAnimable ops u rs a (3 / 2) = Inr (rs1, a1) \<and>
      updateAnimable ops u rs1 a1 1 = Inr (rs2, a2) \<and> an_time a2 = 1 / 2"
    by blast
qed

text \<open>The scenario on the two-second clip: the first update leaves the time 1.5, the
  second wraps it to 0.5.\<close>

theorem updateAnimable_wraps_time_witness:
  "pose_available universe1 render_scene1 (an_entity walk_animable) \<and>
   (\<exists>rs1. updateAnimable id_PoseOps universe1 render_scene1 walk_animable (3 / 2) =
      Inr (rs1, walk_animable\<lparr>an_time := 3 / 2\<rparr>)) \<and>
   (\<exists>rs1 a1 rs2 a2.
      updateAnimable id_PoseOps universe1 render_scene1 walk_animable (3 / 2) = Inr (rs1, a1) \<and>
      updateAnimable id_PoseOps universe1 rs1 a1 1 = Inr (rs2, a2) \<and> an_time a2 = 1 / 2)"
proof -
  let ?anim = "\<lparr>a_ready = True, a_length = 2\<rparr>"
  have clip: "an_animation walk_animable = Some ?anim" "a_ready ?anim" "0 < a_length ?anim"
    by (simp_all add: walk_animable_def)
  have avail: "pose_available universe1 render_scene1 (an_entity walk_animable)"
    by (simp add: pose_available_def universe1_def render_scene1_def hasComponent_def)
  have dt: "(0::real) \<le> 3 / 2" by simp
  note inst = updateAnimable_wraps_time [OF clip avail dt, of id_PoseOps]
  have t1: "time_mod (an_time walk_animable + 3 / 2) (a_length ?anim) = 3 / 2"
    by (simp add: time_mod_def walk_animable_def)
  from inst t1 have first: "\<exists>rs1. updateAnimable id_PoseOps universe1 render_scene1
      walk_animable (3 / 2) = Inr (rs1, walk_animable\<lparr>an_time := 3 / 2\<rparr>)"
    by auto
  have "a_length ?anim = 2 \<and> an_time walk_animable = 0"
    by (simp add: walk_animable_def)
  with inst have second: "\<exists>rs1 a1 rs2 a2.
      updateAnimable id_PoseOps universe1 render_scene1 walk_animable (3 / 2) = Inr (rs1, a1) \<and>
      updateAnimable id_PoseOps universe1 rs1 a1 1 = Inr (rs2, a2) \<and> an_time a2 = 1 / 2"
    by blast
  from avail first second show ?thesis by (intro conjI)
qed

section \<open>Sampling property curves\<close>

lemma truncate_real_round:
  assumes "0 \<le> v"
  shows "truncate_real (v + 1 / 2) = round v"
  using assms by (simp add: truncate_real_def round_def)

lemma float_to_int_round:
  assumes "0 \<le> v" "v + 1 / 2 < 2 ^ 31"
  shows "float_to_int (v + 1 / 2) = Inr (round v)"
proof -
  have lo: "0 \<le> round v"
    using assms(1) by (simp add: round_def)
  have "\<lfloor>v + 1 / 2\<rfloor> < 2 ^ 31"
    using assms(2) by (simp add: floor_less_iff)
  then have hi: "round v < 2 ^ 31"
    by (simp add: round_def)
  from lo have "- (2 ^ 31) \<le> round v"
    by simp
  with hi show ?thesis
    by (simp add: float_to_int_def truncate_real_round [OF assms(1)])
qed

text \<open>A frame index at or above \<open>2^31\<close> has no conversion to \<^verbatim>\<open>int\<close>.\<close>

lemma float_to_int_overflow:
  assumes "2 ^ 31 \<le> v"
  shows "float_to_int v = Inl Overflow"
proof -
  have "(2::int) ^ 31 \<le> \<lfloor>v\<rfloor>"
    using assms by (simp add: le_floor_iff)
  moreover have "0 \<le> v"
    using assms by simp
  ultimately show ?thesis
    by (simp add: float_to_int_def truncate_real_def)
qed

lemma applyPropertyAnimator_overflow:
  assumes "animation a = Some anim" "2 ^ 31 \<le> time a * fps anim + 1 / 2"
  shows "applyPropertyAnimator props e a = Inl Overflow"
  using assms(1) float_to_int_overflow [OF assms(2)] by (simp add: applyPropertyAnimator_def)

lemma applyPropertyAnimator_sample:
  assumes "animation a = Some anim" "curves anim \<noteq> []" "frames (curves anim ! 0) \<noteq> []"
    and "last (frames (curves anim ! 0)) \<noteq> 0"
    and "0 \<le> time a * fps anim" "time a * fps anim + 1 / 2 < 2 ^ 31"
  shows "applyPropertyAnimator props e a =
           Inr (foldl (apply_curve e (sample_frame a anim)) props (curves anim))"
  using assms(1-4) float_to_int_round [OF assms(5,6)] truncate_real_round [OF assms(5)]
  by (simp add: applyPropertyAnimator_def sample_frame_def Let_def)

lemma smod_nonneg:
  assumes "0 \<le> k" "0 < l"
  shows "k smod l = k mod (l::int)"
  using assms by (simp add: signed_modulo_int_def sgn_if)

lemma sample_frame_round:
  assumes "0 \<le> time a * fps anim" "0 < last (frames (curves anim ! 0))"
  shows "sample_frame a anim = round (time a * fps anim) mod last (frames (curves anim ! 0))"
proof -
  have "0 \<le> round (time a * fps anim)"
    using assms(1) by (simp add: round_def)
  then show ?thesis
    using assms by (simp add: sample_frame_def truncate_real_round smod_nonneg)
qed

lemma curve_sample_first:
  assumes "2 \<le> length (frames c)" "frames c ! 0 < frames c ! 1"
  shows "curve_sample (frames c ! 0) c 1 = Some (values_of c ! 0)"
  using assms by (subst curve_sample.simps) simp

lemma apply_curve_first:
  assumes "2 \<le> length (frames c)" "frames c ! 0 < frames c ! 1"
  shows "apply_curve e (frames c ! 0) p c = p((cmp_type c, property c, e) \<mapsto> values_of c ! 0)"
  using assms curve_sample_first [OF assms] by (simp add: apply_curve_def)

text \<open>The loop passes every keyframe whose frame is below the last one, and stops at the
  last keyframe with the interpolation weight 1.\<close>

lemma curve_sample_to_last:
  assumes "sorted_wrt (<) (frames c)" "i + k = length (frames c) - 1" "1 \<le> i"
  shows "curve_sample (last (frames c)) c i = Some (last (values_of c))"
  using assms(2,3)
proof (induction k arbitrary: i)
  case 0
  then have i: "i = length (frames c) - 1" "i < length (frames c)" "i - 1 < i"
    by auto
  from i have ne: "frames c \<noteq> []" "values_of c \<noteq> []"
    by (auto simp add: frames_def values_of_def)
  have lastf: "last (frames c) = frames c ! i"
    using ne i by (simp add: last_conv_nth)
  have lastv: "last (values_of c) = values_of c ! i"
    using ne i by (simp add: last_conv_nth frames_def values_of_def)
  have "frames c ! (i - 1) < frames c ! i"
    using sorted_wrt_nth_less [OF assms(1) i(3) i(2)] .
  then have "real_of_int (frames c ! i - frames c ! (i - 1)) \<noteq> 0"
    by simp
  then have "real_of_int (frames c ! i - frames c ! (i - 1)) /
      real_of_int (frames c ! i - frames c ! (i - 1)) = 1"
    by (rule divide_self)
  then show ?case
    using i(2) by (subst curve_sample.simps) (simp add: lastf lastv Let_def)
next
  case (Suc k)
  then have i: "i < length (frames c) - 1" "length (frames c) - 1 < length (frames c)"
    by auto
  then have ne: "frames c \<noteq> []"
    by auto
  have "frames c ! i < frames c ! (length (frames c) - 1)"
    using sorted_wrt_nth_less [OF assms(1) i] .
  then have below: "\<not> last (frames c) \<le> frames c ! i"
    using ne by (simp add: last_conv_nth)
  from Suc.prems have "curve_sample (last (frames c)) c (i + 1) = Some (last (values_of c))"
    by (intro Suc.IH) auto
  with below i show ?case
    by (subst curve_sample.simps) simp
qed

lemma curve_sample_last:
  assumes "2 \<le> length (frames c)" "sorted_wrt (<) (frames c)"
  shows "curve_sample (last (frames c)) c 1 = Some (last (values_of c))"
  using assms(1) by (intro curve_sample_to_last [OF assms(2), of 1 "length (frames c) - 2"]) auto

lemma apply_curve_last:
  assumes "2 \<le> length (frames c)" "sorted_wrt (<) (frames c)"
  shows "apply_curve e (last (frames c)) p c =
           p((cmp_type c, property c, e) \<mapsto> last (values_of c))"
  using assms(1) curve_sample_last [OF assms] by (simp add: apply_curve_def)

text \<open>
  C4, as the code has it. For a PropertyAnimator with a bound asset whose first curve
  ends at a frame \<open>N > 0\<close>, at a time with \<open>time * fps \<ge> 0\<close> whose frame index fits an
  \<^verbatim>\<open>int\<close> (\<open>time * fps + 0.5 < 2^31\<close>): the sample frame is \<open>round (time * fps) mod N\<close>
  and \<open>applyPropertyAnimator\<close> applies every curve at that frame. For a curve with at
  least two keyframes at strictly increasing frames: sampled at the frame of its first
  keyframe it writes that keyframe's value exactly, and sampled at the frame of its
  last keyframe it writes the last keyframe's value exactly. A time whose frame index
  before the wrap equals the frame of the curve's last keyframe is sampled at that
  frame, and the last keyframe's value is written, when that frame is below \<open>N\<close>. A
  time whose frame index before the wrap equals \<open>N\<close>, as it does at the last keyframe
  of the first curve, is sampled at frame 0: a curve whose first keyframe is at
  frame 0 then gets its first keyframe's value written.
\<close>

theorem applyPropertyAnimator_sampling:
  assumes asset: "animation a = Some anim" "curves anim \<noteq> []"
      "frames (curves anim ! 0) \<noteq> []"
    and N: "0 < last (frames (curves anim ! 0))"
    and t: "0 \<le> time a * fps anim" "time a * fps anim + 1 / 2 < 2 ^ 31"
    and c: "2 \<le> length (frames c)" "sorted_wrt (<) (frames c)"
  shows "sample_frame a anim = round (time a * fps anim) mod last (frames (curves anim ! 0)) \<and>
         applyPropertyAnimator props e a =
           Inr (foldl (apply_curve e (sample_frame a anim)) props (curves anim)) \<and>
         (sample_frame a anim = frames c ! 0 \<longrightarrow>
            apply_curve e (sample_frame a anim) p c =
              p((cmp_type c, property c, e) \<mapsto> values_of c ! 0)) \<and>
         (sample_frame a anim = last (frames c) \<longrightarrow>
            apply_curve e (sample_frame a anim) p c =
              p((cmp_type c, property c, e) \<mapsto> last (values_of c))) \<and>
         (round (time a * fps anim) = last (frames c) \<and>
          last (frames c) < last (frames (curves anim ! 0)) \<longrightarrow>
            sample_frame a anim = last (frames c) \<and>
            apply_curve e (sample_frame a anim) p c =
              p((cmp_type c, property c, e) \<mapsto> last (values_of c))) \<and>
         (round (time a * fps anim) = last (frames (curves anim ! 0)) \<longrightarrow>
            sample_frame a anim = 0 \<and>
            (frames c ! 0 = 0 \<longrightarrow>
               apply_curve e (sample_frame a anim) p c =
                 p((cmp_type c, property c, e) \<mapsto> values_of c ! 0)))"
proof -
  let ?N = "last (frames (curves anim ! 0))"
  have frame: "sample_frame a anim = round (time a * fps anim) mod ?N"
    using sample_frame_round [OF t(1) N] .
  from N have nz: "?N \<noteq> 0" by simp
  have app: "applyPropertyAnimator props e a =
      Inr (foldl (apply_curve e (sample_frame a anim)) props (curves anim))"
    using applyPropertyAnimator_sample [OF asset nz t] .
  have c01: "frames c ! 0 < frames c ! 1"
    using c by (intro sorted_wrt_nth_less [OF c(2)]) auto
  have first: "apply_curve e (sample_frame a anim) p c =
      p((cmp_type c, property c, e) \<mapsto> values_of c ! 0)"
    if "sample_frame a anim = frames c ! 0"
    using that apply_curve_first [OF c(1) c01] by simp
  have final: "apply_curve e (sample_frame a anim) p c =
      p((cmp_type c, property c, e) \<mapsto> last (values_of c))"
    if "sample_frame a anim = last (frames c)"
    using that apply_curve_last [OF c] by simp
  have nonneg: "0 \<le> round (time a * fps anim)"
    using t(1) by (simp add: round_def)
  have keep: "sample_frame a anim = last (frames c)"
    if "round (time a * fps anim) = last (frames c)" "last (frames c) < ?N"
    using that frame nonneg by simp
  have wrap: "sample_frame a anim = 0" if "round (time a * fps anim) = ?N"
    using that frame by simp
  have wrap0: "apply_curve e (sample_frame a anim) p c =
      p((cmp_type c, property c, e) \<mapsto> values_of c ! 0)"
    if "round (time a * fps anim) = ?N" "frames c ! 0 = 0"
    using that wrap first by simp
  show ?thesis
  proof (intro conjI impI)
    show "sample_frame a anim = round (time a * fps anim) mod ?N" by (fact frame)
    show "applyPropertyAnimator props e a =
        Inr (foldl (apply_curve e (sample_frame a anim)) props (curves anim))" by (fact app)
    show "apply_curve e (sample_frame a anim) p c =
        p((cmp_type c, property c, e) \<mapsto> values_of c ! 0)"
      if "sample_frame a anim = frames c ! 0"
      using that by (rule first)
    show "apply_curve e (sample_frame a anim) p c =
        p((cmp_type c, property c, e) \<mapsto> last (values_of c))"
      if "sample_frame a anim = last (frames c)"
      using that by (rule final)
    show "sample_frame a anim = last (frames c)"
      if "round (time a * fps anim) = last (frames c) \<and> last (frames c) < ?N"
      using that keep by blast
    show "apply_curve e (sample_frame a anim) p c =
        p((cmp_type c, property c, e) \<mapsto> last (values_of c))"
      if "round (time a * fps anim) = last (frames c) \<and> last (frames c) < ?N"
      using that keep final by blast
    show "sample_frame a anim = 0" if "round (time a * fps anim) = ?N"
      using that by (rule wrap)
    show "apply_curve e (sample_frame a anim) p c =
        p((cmp_type c, property c, e) \<mapsto> values_of c ! 0)"
      if "round (time a * fps anim) = ?N" "frames c ! 0 = 0"
      using that by (rule wrap0)
  qed
qed

text \<open>On the asset of two curves, whose first curve ends at frame 20, for the curve of
  the scenario, whose keyframes are at the frames 0 and 10. At time 0.0 the sample
  frame is 0, the frame of its first keyframe, and the value written is 0. At time 1.0
  the frame index before the wrap is 10, the frame of its last keyframe; the sample
  frame is 10 and the value written is 1, the last keyframe's. At time 2.0 the frame
  index before the wrap is 20; the sample frame is 0 and the value written is 0.\<close>

theorem applyPropertyAnimator_sampling_witness:
  "sample_frame \<lparr>animation = Some two_curves, flags = 0, time = 0\<rparr> two_curves =
     frames ramp_curve ! 0 \<and>
   values_of ramp_curve ! 0 = 0 \<and>
   applyPropertyAnimator Map.empty 1 \<lparr>animation = Some two_curves, flags = 0, time = 0\<rparr> =
     Inr [(OtherComponent ''point_light'', ''range'', 1) \<mapsto> 0,
          (OtherComponent ''point_light'', ''intensity'', 1) \<mapsto> 0] \<and>
   round (time \<lparr>animation = Some two_curves, flags = 0, time = 1\<rparr> * fps two_curves) =
     last (frames ramp_curve) \<and>
   last (frames ramp_curve) < last (frames (curves two_curves ! 0)) \<and>
   sample_frame \<lparr>animation = Some two_curves, flags = 0, time = 1\<rparr> two_curves = 10 \<and>
   last (values_of ramp_curve) = 1 \<and>
   applyPropertyAnimator Map.empty 1 \<lparr>animation = Some two_curves, flags = 0, time = 1\<rparr> =
     Inr [(OtherComponent ''point_light'', ''range'', 1) \<mapsto> 2,
          (OtherComponent ''point_light'', ''intensity'', 1) \<mapsto> 1] \<and>
   round (time \<lparr>animation = Some two_curves, flags = 0, time = 2\<rparr> * fps two_curves) =
     last (frames (curves two_curves ! 0)) \<and>
   sample_frame \<lparr>animation = Some two_curves, flags = 0, time = 2\<rparr> two_curves = 0 \<and>
   applyPropertyAnimator Map.empty 1 \<lparr>animation = Some two_curves, flags = 0, time = 2\<rparr> =
     Inr [(OtherComponent ''point_light'', ''range'', 1) \<mapsto> 0,
          (OtherComponent ''point_light'', ''intensity'', 1) \<mapsto> 0]"
proof -
  let ?a0 = "\<lparr>animation = Some two_curves, flags = 0, time = 0\<rparr>"
  let ?a1 = "\<lparr>animation = Some two_curves, flags = 0, time = 1\<rparr>"
  let ?a2 = "\<lparr>animation = Some two_curves, flags = 0, time = 2\<rparr>"
  let ?range = "(OtherComponent ''point_light'', ''range'', 1::EntityRef)"
  let ?intensity = "(OtherComponent ''point_light'', ''intensity'', 1::EntityRef)"
  have fr: "frames ramp_curve = [0, 10]" and vs: "values_of ramp_curve = [0, 1]"
    by (simp_all add: ramp_curve_def frames_def values_of_def)
  have fr': "frames range_curve = [0, 20]" and vs': "values_of range_curve = [0, 4]"
    by (simp_all add: range_curve_def frames_def values_of_def)
  have cs: "curves two_curves = [range_curve, ramp_curve]" and f: "fps two_curves = 10"
    by (simp_all add: two_curves_def)
  have key: "cmp_type ramp_curve = OtherComponent ''point_light''"
      "property ramp_curve = ''intensity''"
    by (simp_all add: ramp_curve_def)
  have key': "cmp_type range_curve = OtherComponent ''point_light''"
      "property range_curve = ''range''"
    by (simp_all add: range_curve_def)
  have N: "0 < last (frames (curves two_curves ! 0))"
    by (simp add: cs fr')
  have c: "2 \<le> length (frames ramp_curve)" "sorted_wrt (<) (frames ramp_curve)"
    by (simp_all add: fr)
  have "curve_sample 0 range_curve (Suc 0) = Some 0"
    by (subst curve_sample.simps) (simp add: fr' vs')
  then have range0: "apply_curve 1 0 Map.empty range_curve = [?range \<mapsto> 0]"
    by (simp add: apply_curve_def fr' key')
  have "curve_sample 10 range_curve (Suc 0) = Some 2"
    by (subst curve_sample.simps) (simp add: fr' vs')
  then have range10: "apply_curve 1 10 Map.empty range_curve = [?range \<mapsto> 2]"
    by (simp add: apply_curve_def fr' key')

  have asset0: "animation ?a0 = Some two_curves" "curves two_curves \<noteq> []"
      "frames (curves two_curves ! 0) \<noteq> []"
    by (simp_all add: cs fr')
  have t0: "0 \<le> time ?a0 * fps two_curves" "time ?a0 * fps two_curves + 1 / 2 < 2 ^ 31"
    by (simp_all add: f)
  note inst0 = applyPropertyAnimator_sampling [OF asset0 N t0 c, of Map.empty 1 "[?range \<mapsto> 0]"]
  from inst0 have "sample_frame ?a0 two_curves =
      round (time ?a0 * fps two_curves) mod last (frames (curves two_curves ! 0))"
    by blast
  then have frame0: "sample_frame ?a0 two_curves = 0"
    by (simp add: cs fr' f)
  then have "sample_frame ?a0 two_curves = frames ramp_curve ! 0"
    by (simp add: fr)
  with inst0 have "apply_curve 1 (sample_frame ?a0 two_curves) [?range \<mapsto> 0] ramp_curve =
      [?range \<mapsto> 0, (cmp_type ramp_curve, property ramp_curve, 1) \<mapsto> values_of ramp_curve ! 0]"
    by blast
  then have "apply_curve 1 0 [?range \<mapsto> 0] ramp_curve = [?range \<mapsto> 0, ?intensity \<mapsto> 0]"
    by (simp add: frame0 vs key)
  moreover from inst0 frame0 have "applyPropertyAnimator Map.empty 1 ?a0 =
      Inr (foldl (apply_curve 1 0) Map.empty (curves two_curves))"
    by simp
  ultimately have app0: "applyPropertyAnimator Map.empty 1 ?a0 =
      Inr [?range \<mapsto> 0, ?intensity \<mapsto> 0]"
    by (simp add: cs range0)

  have asset1: "animation ?a1 = Some two_curves" "curves two_curves \<noteq> []"
      "frames (curves two_curves ! 0) \<noteq> []"
    by (simp_all add: cs fr')
  have t1: "0 \<le> time ?a1 * fps two_curves" "time ?a1 * fps two_curves + 1 / 2 < 2 ^ 31"
    by (simp_all add: f)
  have pre1: "round (time ?a1 * fps two_curves) = last (frames ramp_curve)"
    by (simp add: fr f)
  have below1: "last (frames ramp_curve) < last (frames (curves two_curves ! 0))"
    by (simp add: cs fr fr')
  note inst1 = applyPropertyAnimator_sampling [OF asset1 N t1 c, of Map.empty 1 "[?range \<mapsto> 2]"]
  from inst1 pre1 below1 have "sample_frame ?a1 two_curves = last (frames ramp_curve)"
    by blast
  then have frame1: "sample_frame ?a1 two_curves = 10"
    by (simp add: fr)
  from inst1 pre1 below1 have "apply_curve 1 (sample_frame ?a1 two_curves) [?range \<mapsto> 2]
      ramp_curve =
      [?range \<mapsto> 2, (cmp_type ramp_curve, property ramp_curve, 1) \<mapsto> last (values_of ramp_curve)]"
    by blast
  then have "apply_curve 1 10 [?range \<mapsto> 2] ramp_curve = [?range \<mapsto> 2, ?intensity \<mapsto> 1]"
    by (simp add: frame1 vs key)
  moreover from inst1 frame1 have "applyPropertyAnimator Map.empty 1 ?a1 =
      Inr (foldl (apply_curve 1 10) Map.empty (curves two_curves))"
    by simp
  ultimately have app1: "applyPropertyAnimator Map.empty 1 ?a1 =
      Inr [?range \<mapsto> 2, ?intensity \<mapsto> 1]"
    by (simp add: cs range10)

  have asset2: "animation ?a2 = Some two_curves" "curves two_curves \<noteq> []"
      "frames (curves two_curves ! 0) \<noteq> []"
    by (simp_all add: cs fr')
  have t2: "0 \<le> time ?a2 * fps two_curves" "time ?a2 * fps two_curves + 1 / 2 < 2 ^ 31"
    by (simp_all add: f)
  have pre2: "round (time ?a2 * fps two_curves) = last (frames (curves two_curves ! 0))"
    by (simp add: cs fr' f)
  note inst2 = applyPropertyAnimator_sampling [OF asset2 N t2 c, of Map.empty 1 "[?range \<mapsto> 0]"]
  from inst2 pre2 have frame2: "sample_frame ?a2 two_curves = 0"
    by blast
  have "frames ramp_curve ! 0 = 0"
    by (simp add: fr)
  with inst2 pre2 have "apply_curve 1 (sample_frame ?a2 two_curves) [?range \<mapsto> 0]
      ramp_curve =
      [?range \<mapsto> 0, (cmp_type ramp_curve, property ramp_curve, 1) \<mapsto> values_of ramp_curve ! 0]"
    by blast
  then have "apply_curve 1 0 [?range \<mapsto> 0] ramp_curve = [?range \<mapsto> 0, ?intensity \<mapsto> 0]"
    by (simp add: frame2 vs key)
  moreover from inst2 frame2 have "applyPropertyAnimator Map.empty 1 ?a2 =
      Inr (foldl (apply_curve 1 0) Map.empty (curves two_curves))"
    by simp
  ultimately have app2: "applyPropertyAnimator Map.empty 1 ?a2 =
      Inr [?range \<mapsto> 0, ?intensity \<mapsto> 0]"
    by (simp add: cs range0)

  have first: "sample_frame ?a0 two_curves = frames ramp_curve ! 0"
    using frame0 by (simp add: fr)
  have v0: "values_of ramp_curve ! 0 = 0" and vl: "last (values_of ramp_curve) = 1"
    by (simp_all add: vs)
  from first v0 app0 pre1 below1 frame1 vl app1 pre2 frame2 app2 show ?thesis
    by (intro conjI)
qed

text \<open>The claim as written fails on the scenario's asset, whose one curve is the first
  curve: at time 1.0 the frame index before the wrap is 10, the frame of the last
  keyframe, whose value is 1; the sample frame wraps to 0 and the value written is 0.\<close>

theorem last_keyframe_not_sampled:
  "float_to_int (time \<lparr>animation = Some ramp, flags = 0, time = 1\<rparr> * fps ramp + 1 / 2) =
     Inr (last (frames ramp_curve)) \<and>
   last (values_of ramp_curve) = 1 \<and>
   applyPropertyAnimator Map.empty 1 \<lparr>animation = Some ramp, flags = 0, time = 1\<rparr> =
     Inr [(OtherComponent ''point_light'', ''intensity'', 1) \<mapsto> 0] \<and>
   applyPropertyAnimator Map.empty 1 \<lparr>animation = Some ramp, flags = 0, time = 1\<rparr> \<noteq>
     Inr [(OtherComponent ''point_light'', ''intensity'', 1) \<mapsto> last (values_of ramp_curve)]"
proof -
  have fr: "frames ramp_curve = [0, 10]" and vs: "values_of ramp_curve = [0, 1]"
    by (simp_all add: ramp_curve_def frames_def values_of_def)
  have pre: "float_to_int (time \<lparr>animation = Some ramp, flags = 0, time = 1\<rparr> * fps ramp
      + 1 / 2) = Inr (last (frames ramp_curve))"
    by (simp add: ramp_def fr float_to_int_def truncate_real_def)
  have sample: "curve_sample 0 ramp_curve (Suc 0) = Some 0"
    by (subst curve_sample.simps) (simp add: fr vs)
  have key: "(cmp_type ramp_curve, property ramp_curve) =
      (OtherComponent ''point_light'', ''intensity'')"
    by (simp add: ramp_curve_def)
  have app: "applyPropertyAnimator Map.empty 1 \<lparr>animation = Some ramp, flags = 0, time = 1\<rparr> =
      Inr [(OtherComponent ''point_light'', ''intensity'', 1) \<mapsto> 0]"
    using key
    by (simp add: applyPropertyAnimator_def ramp_def fr float_to_int_def truncate_real_def
        signed_modulo_int_def apply_curve_def sample)
  have neq: "[(OtherComponent ''point_light'', ''intensity'', 1::EntityRef) \<mapsto> 0::real] \<noteq>
      [(OtherComponent ''point_light'', ''intensity'', 1) \<mapsto> 1]"
  proof
    assume "[(OtherComponent ''point_light'', ''intensity'', 1::EntityRef) \<mapsto> 0::real] =
      [(OtherComponent ''point_light'', ''intensity'', 1) \<mapsto> 1]"
    then have "[(OtherComponent ''point_light'', ''intensity'', 1::EntityRef) \<mapsto> 0::real]
        (OtherComponent ''point_light'', ''intensity'', 1) =
      [(OtherComponent ''point_light'', ''intensity'', 1::EntityRef) \<mapsto> 1::real]
        (OtherComponent ''point_light'', ''intensity'', 1)"
      by (rule arg_cong)
    then show False by simp
  qed
  from pre vs app neq show ?thesis by simp
qed

section \<open>Disabling and enabling a property animator\<close>

lemma ramp_curve_columns:
  "frames ramp_curve = [0, 10]" "values_of ramp_curve = [0, 1]"
  "cmp_type ramp_curve = OtherComponent ''point_light''" "property ramp_curve = ''intensity''"
  by (simp_all add: ramp_curve_def frames_def values_of_def)

lemma ramp_fields: "pa_ready ramp" "fps ramp = 10" "curves ramp = [ramp_curve]"
  by (simp_all add: ramp_def)

lemma ramp_sample_0: "curve_sample 0 ramp_curve (Suc 0) = Some 0"
  by (subst curve_sample.simps) (simp add: ramp_curve_columns)

lemma ramp_sample_6: "curve_sample 6 ramp_curve (Suc 0) = Some (3 / 5)"
  by (subst curve_sample.simps) (simp add: ramp_curve_columns)

lemma ramp_apply_0:
  "applyPropertyAnimator props 1 \<lparr>animation = Some ramp, flags = f, time = 0\<rparr> =
     Inr (props((OtherComponent ''point_light'', ''intensity'', 1) \<mapsto> 0))"
  by (simp add: applyPropertyAnimator_def ramp_fields ramp_curve_columns float_to_int_def
      truncate_real_def signed_modulo_int_def apply_curve_def ramp_sample_0)

lemma ramp_apply_6:
  "applyPropertyAnimator props 1 \<lparr>animation = Some ramp, flags = f, time = 3 / 5\<rparr> =
     Inr (props((OtherComponent ''point_light'', ''intensity'', 1) \<mapsto> 3 / 5))"
  by (simp add: applyPropertyAnimator_def ramp_fields ramp_curve_columns float_to_int_def
      truncate_real_def signed_modulo_int_def apply_curve_def ramp_sample_6)

lemma DISABLED_flags:
  "flag_set 0 DISABLED True = DISABLED" "flag_set DISABLED DISABLED False = 0"
  "isSet DISABLED DISABLED" "\<not> isSet 0 DISABLED"
  by (simp_all add: flag_set_def isSet_def DISABLED_def)

text \<open>
  C5. The scenario: one curve with the keys (0, 0.0) and (10, 1.0) at 10 frames per
  second. After an update by 0.6 s the elapsed time is 0.6 and the property is 0.6
  (frame 6). \<open>enablePropertyAnimator\<close> with \<open>False\<close> sets the disabled flag, resets the
  time to 0 and writes the property at frame 0, the value 0.0.
  \<open>enablePropertyAnimator\<close> with \<open>True\<close> then clears the flag with the time at 0 and
  the property at 0.0, and applying the animator at once writes 0.0 again. The reset
  of the time by the enabling call is its own: called on the running animator it sets
  the time from 0.6 to 0 and leaves the property as it is.
\<close>

theorem enablePropertyAnimator_scenario:
  "\<exists>s1 s2 s3.
     updatePropertyAnimators ramp_scene (3 / 5) = Inr s1 \<and>
     m_property_animators s1 = [(1, \<lparr>animation = Some ramp, flags = 0, time = 3 / 5\<rparr>)] \<and>
     m_properties s1 (OtherComponent ''point_light'', ''intensity'', 1) = Some (3 / 5) \<and>
     enablePropertyAnimator s1 1 False = Inr s2 \<and>
     m_property_animators s2 = [(1, \<lparr>animation = Some ramp, flags = DISABLED, time = 0\<rparr>)] \<and>
     m_properties s2 (OtherComponent ''point_light'', ''intensity'', 1) = Some 0 \<and>
     enablePropertyAnimator s2 1 True = Inr s3 \<and>
     m_property_animators s3 = [(1, \<lparr>animation = Some ramp, flags = 0, time = 0\<rparr>)] \<and>
     m_properties s3 (OtherComponent ''point_light'', ''intensity'', 1) = Some 0 \<and>
     applyPropertyAnimator (m_properties s3) 1 \<lparr>animation = Some ramp, flags = 0, time = 0\<rparr> =
       Inr (m_properties s3) \<and>
     enablePropertyAnimator s1 1 True =
       Inr (s1\<lparr>m_property_animators := [(1, \<lparr>animation = Some ramp, flags = 0, time = 0\<rparr>)]\<rparr>)"
proof -
  let ?key = "(OtherComponent ''point_light'', ''intensity'', 1::EntityRef)"
  let ?s1 = "\<lparr>m_property_animators = [(1, \<lparr>animation = Some ramp, flags = 0, time = 3 / 5\<rparr>)],
      m_properties = [?key \<mapsto> 3 / 5]\<rparr>"
  let ?s2 = "\<lparr>m_property_animators = [(1, \<lparr>animation = Some ramp, flags = DISABLED, time = 0\<rparr>)],
      m_properties = [?key \<mapsto> 0]\<rparr>"
  let ?s3 = "\<lparr>m_property_animators = [(1, \<lparr>animation = Some ramp, flags = 0, time = 0\<rparr>)],
      m_properties = [?key \<mapsto> 0]\<rparr>"
  have u: "updatePropertyAnimators ramp_scene (3 / 5) = Inr ?s1"
    by (simp add: updatePropertyAnimators_def ramp_scene_def ramp_fields ramp_curve_columns
        DISABLED_flags ramp_apply_6)
  have d: "enablePropertyAnimator ?s1 1 False = Inr ?s2"
    by (simp add: enablePropertyAnimator_def DISABLED_flags ramp_apply_0)
  have e: "enablePropertyAnimator ?s2 1 True = Inr ?s3"
    by (simp add: enablePropertyAnimator_def DISABLED_flags)
  have r: "applyPropertyAnimator (m_properties ?s3) 1
      \<lparr>animation = Some ramp, flags = 0, time = 0\<rparr> = Inr (m_properties ?s3)"
    by (simp add: ramp_apply_0)
  have e1: "enablePropertyAnimator ?s1 1 True =
      Inr (?s1\<lparr>m_property_animators := [(1, \<lparr>animation = Some ramp, flags = 0, time = 0\<rparr>)]\<rparr>)"
    by (simp add: enablePropertyAnimator_def flag_set_def)
  show ?thesis
    apply (rule exI [of _ ?s1])
    apply (rule exI [of _ ?s2])
    apply (rule exI [of _ ?s3])
    using u d e r e1 apply simp
    done
qed

section \<open>Disabling applies without the guards of the update\<close>

lemma enablePropertyAnimator_disable:
  assumes "map_of (m_property_animators s) e = Some a"
  shows "enablePropertyAnimator s e False =
     (case animation a of
        None \<Rightarrow> Inl NullPointer
      | Some anim \<Rightarrow>
          if curves anim = [] then Inl OutOfBounds
          else if frames (curves anim ! 0) = [] then Inl OutOfBounds
          else if last (frames (curves anim ! 0)) = 0 then Inl DivisionByZero
          else Inr (s\<lparr>m_property_animators :=
                         AList.update e (a\<lparr>flags := flag_set (flags a) DISABLED True, time := 0\<rparr>)
                           (m_property_animators s),
                      m_properties := foldl (apply_curve e 0) (m_properties s) (curves anim)\<rparr>))"
  using assms
  by (simp add: enablePropertyAnimator_def applyPropertyAnimator_def Let_def float_to_int_def
      truncate_real_def signed_modulo_int_def split: option.splits)

text \<open>
  C10. \<open>enablePropertyAnimator\<close> with \<open>False\<close> applies the animator without the
  guards of the per-frame update. For an animator with a bound, ready asset whose
  first curve has a keyframe and ends at a frame greater than 0, the call returns a
  scene (no index leaves its array and the remainder is not by zero), with every curve
  applied at frame 0. Conversely the call returns a scene only if the asset is bound,
  has a curve, its first curve has a keyframe and the last frame of it is not 0. The
  per-frame update skips an animator whose asset is null, not ready, or without a
  curve or a keyframe in its first curve.
\<close>

theorem enablePropertyAnimator_disable_defined:
  assumes bound: "map_of (m_property_animators s) e = Some a"
  shows "(animation a = Some anim \<and> pa_ready anim \<and> curves anim \<noteq> [] \<and>
          frames (curves anim ! 0) \<noteq> [] \<and> 0 < last (frames (curves anim ! 0)) \<longrightarrow>
            (\<exists>s'. enablePropertyAnimator s e False = Inr s' \<and>
               m_properties s' = foldl (apply_curve e 0) (m_properties s) (curves anim))) \<and>
         ((\<exists>s'. enablePropertyAnimator s e False = Inr s') \<longrightarrow>
            (\<exists>anim'. animation a = Some anim' \<and> curves anim' \<noteq> [] \<and>
               frames (curves anim' ! 0) \<noteq> [] \<and> last (frames (curves anim' ! 0)) \<noteq> 0)) \<and>
         (animation a = None \<or>
          (\<exists>anim'. animation a = Some anim' \<and>
             (\<not> pa_ready anim' \<or> curves anim' = [] \<or> frames (curves anim' ! 0) = [])) \<longrightarrow>
            updatePropertyAnimators_loop dt visited ((e, a) # rest) props =
              updatePropertyAnimators_loop dt (visited @ [(e, a)]) rest props)"
proof (intro conjI impI)
  assume pre: "animation a = Some anim \<and> pa_ready anim \<and> curves anim \<noteq> [] \<and>
      frames (curves anim ! 0) \<noteq> [] \<and> 0 < last (frames (curves anim ! 0))"
  then have "last (frames (curves anim ! 0)) \<noteq> 0" by simp
  with pre show "\<exists>s'. enablePropertyAnimator s e False = Inr s' \<and>
      m_properties s' = foldl (apply_curve e 0) (m_properties s) (curves anim)"
    by (simp add: enablePropertyAnimator_disable [OF bound])
next
  assume "\<exists>s'. enablePropertyAnimator s e False = Inr s'"
  then obtain s' where "enablePropertyAnimator s e False = Inr s'" ..
  then show "\<exists>anim'. animation a = Some anim' \<and> curves anim' \<noteq> [] \<and>
      frames (curves anim' ! 0) \<noteq> [] \<and> last (frames (curves anim' ! 0)) \<noteq> 0"
    unfolding enablePropertyAnimator_disable [OF bound]
    by (cases "animation a") (auto split: if_splits)
next
  assume "animation a = None \<or>
      (\<exists>anim'. animation a = Some anim' \<and>
         (\<not> pa_ready anim' \<or> curves anim' = [] \<or> frames (curves anim' ! 0) = []))"
  then show "updatePropertyAnimators_loop dt visited ((e, a) # rest) props =
      updatePropertyAnimators_loop dt (visited @ [(e, a)]) rest props"
    by (cases "animation a") auto
qed

text \<open>On the scenario's scene the call is defined and writes 0; on a scene whose
  animator has no asset it is a null dereference, where the update skips the animator.\<close>

theorem enablePropertyAnimator_disable_defined_witness:
  "(\<exists>s'. enablePropertyAnimator ramp_scene 1 False = Inr s' \<and>
      m_properties s' = [(OtherComponent ''point_light'', ''intensity'', 1) \<mapsto> 0]) \<and>
   enablePropertyAnimator unbound_scene 1 False = Inl NullPointer \<and>
   updatePropertyAnimators unbound_scene (3 / 5) = Inr unbound_scene"
proof -
  let ?a = "\<lparr>animation = Some ramp, flags = 0, time = 0\<rparr>"
  have bound: "map_of (m_property_animators ramp_scene) 1 = Some ?a"
    by (simp add: ramp_scene_def)
  have pre: "animation ?a = Some ramp \<and> pa_ready ramp \<and> curves ramp \<noteq> [] \<and>
      frames (curves ramp ! 0) \<noteq> [] \<and> 0 < last (frames (curves ramp ! 0))"
    by (simp add: ramp_fields ramp_curve_columns)
  from enablePropertyAnimator_disable_defined [OF bound, of ramp] pre
  obtain s' where s': "enablePropertyAnimator ramp_scene 1 False = Inr s'"
    "m_properties s' = foldl (apply_curve 1 0) (m_properties ramp_scene) (curves ramp)"
    by blast
  have "foldl (apply_curve 1 0) (m_properties ramp_scene) (curves ramp) =
      [(OtherComponent ''point_light'', ''intensity'', 1) \<mapsto> 0]"
    by (simp add: ramp_scene_def ramp_fields apply_curve_def ramp_curve_columns ramp_sample_0)
  with s' have first: "\<exists>s'. enablePropertyAnimator ramp_scene 1 False = Inr s' \<and>
      m_properties s' = [(OtherComponent ''point_light'', ''intensity'', 1) \<mapsto> 0]"
    by auto
  let ?b = "\<lparr>animation = None, flags = 0, time = 0\<rparr> :: PropertyAnimator"
  have bound': "map_of (m_property_animators unbound_scene) 1 = Some ?b"
    by (simp add: unbound_scene_def)
  have "\<not> (\<exists>anim'. animation ?b = Some anim' \<and> curves anim' \<noteq> [] \<and>
      frames (curves anim' ! 0) \<noteq> [] \<and> last (frames (curves anim' ! 0)) \<noteq> 0)"
    by simp
  with enablePropertyAnimator_disable_defined [OF bound']
  have "\<not> (\<exists>s'. enablePropertyAnimator unbound_scene 1 False = Inr s')"
    by blast
  then have second: "enablePropertyAnimator unbound_scene 1 False = Inl NullPointer"
    by (simp add: enablePropertyAnimator_def unbound_scene_def applyPropertyAnimator_def)
  have third: "updatePropertyAnimators unbound_scene (3 / 5) = Inr unbound_scene"
    by (simp add: updatePropertyAnimators_def unbound_scene_def)
  from first second third show ?thesis by (intro conjI)
qed

section \<open>Writing typed inputs by slot index\<close>

text \<open>The checked setters (\<open>setAnimatorFloatInput\<close> and its two siblings) never fail
  on a bound animator whose declaration fits its array and whose context holds the
  declared slots: an index outside the declared inputs changes nothing, a slot of
  another type logs one warning and changes nothing, and a slot of the right type
  has the bytes stored at its offset.\<close>

lemma setAnimatorTypedInput_checked:
  assumes "m_animator_map s e = Some i" "i < length (m_animators s)"
    and "resource (m_animators s ! i) = Some res" "ctx (m_animators s ! i) = Some c"
    and "inputs_count (m_inputs res) \<le> length (inputs (m_inputs res))"
  shows "setAnimatorTypedInput ty word s e input_idx bs =
     (if input_idx \<ge> inputs_count (m_inputs res) then Inr (s, [])
      else if in_type (inputs (m_inputs res) ! input_idx) \<noteq> ty
      then Inr (s, [''Trying to set '' @ word @ '' to '' @
                     in_name (inputs (m_inputs res) ! input_idx)])
      else case write_input s i c (in_offset (inputs (m_inputs res) ! input_idx)) bs of
             Inl err \<Rightarrow> Inl err
           | Inr s' \<Rightarrow> Inr (s', []))"
  using assms by (simp add: setAnimatorTypedInput_def Let_def)

text \<open>With assertions compiled in, no call of \<open>setAnimatorInput\<close> returns: an index
  inside the array fails the first assertion, an index outside it is read by the
  second.\<close>

lemma setAnimatorInput_typed_asserts_never_return:
  "setAnimatorInput_typed True ty s e input_idx bs \<noteq> Inr s'"
  by (auto simp: setAnimatorInput_typed_def Let_def split: option.splits)

text \<open>
  C2, on the code. The store binds entity 10 to a controller that declares the float
  input \<open>speed\<close> in slot 0, with a live context. Through \<open>setAnimatorInput\<close> the write
  of a float to slot 0, in range and of the declared type, fails the first assertion
  when assertions are compiled in; when they are not, the write of a bool to that
  float slot is stored. The checked sibling \<open>setAnimatorFloatInput\<close> stores the float,
  and \<open>setAnimatorBoolInput\<close> on the float slot logs a warning and stores nothing.
\<close>

theorem setAnimatorInput_assertions_inverted:
  "setAnimatorInput_float True (input_store (replicate 8 0)) 10 0 v = Inl AssertionFailed \<and>
   setAnimatorInput_bool False (input_store (replicate 8 0)) 10 0 True =
     Inr (input_store [1, 0, 0, 0, 0, 0, 0, 0]) \<and>
   setAnimatorFloatInput (input_store (replicate 8 0)) 10 0 0x3F800000 =
     Inr (input_store [0, 0, 0x80, 0x3F, 0, 0, 0, 0], []) \<and>
   setAnimatorBoolInput (input_store (replicate 8 0)) 10 0 True =
     Inr (input_store (replicate 8 0), [''Trying to set bool to speed''])"
proof (intro conjI)
  show "setAnimatorInput_float True (input_store (replicate 8 0)) 10 0 v = Inl AssertionFailed"
    by (simp add: setAnimatorInput_float_def setAnimatorInput_typed_def input_store_def
        controller2_def)
  have rep: "replicate 8 (0::u8) = [0, 0, 0, 0, 0, 0, 0, 0]"
    by (simp add: numeral_eq_Suc)
  show "setAnimatorInput_bool False (input_store (replicate 8 0)) 10 0 True =
      Inr (input_store [1, 0, 0, 0, 0, 0, 0, 0])"
    by (simp add: rep setAnimatorInput_bool_def setAnimatorInput_typed_def input_store_def
        controller2_def context8_def write_input_def write_bytes_def bool_byte_def)
  show "setAnimatorFloatInput (input_store (replicate 8 0)) 10 0 0x3F800000 =
      Inr (input_store [0, 0, 0x80, 0x3F, 0, 0, 0, 0], [])"
    by (simp add: rep setAnimatorFloatInput_def setAnimatorTypedInput_def input_store_def
        controller2_def context8_def write_input_def write_bytes_def u32_bytes_def)
  show "setAnimatorBoolInput (input_store (replicate 8 0)) 10 0 True =
      Inr (input_store (replicate 8 0), [''Trying to set bool to speed''])"
    by (simp add: setAnimatorBoolInput_def setAnimatorTypedInput_def input_store_def
        controller2_def context8_def)
qed

section \<open>Draining the event stream\<close>

lemma bytes_u32_u32_bytes: "bytes_u32 (u32_bytes w) = w"
proof (rule bit_word_eqI)
  fix n
  assume "n < LENGTH(32)"
  then have n: "n < 32" by simp
  consider "n < 8" | "8 \<le> n" "n < 16" | "16 \<le> n" "n < 24" | "24 \<le> n"
    by linarith
  then show "bit (bytes_u32 (u32_bytes w)) n = bit w n"
    using n by cases (auto simp add: bytes_u32_def u32_bytes_def bit_simps)
qed

lemma length_u32_bytes: "length (u32_bytes w) = 4"
  by (simp add: u32_bytes_def)

lemma read_bytes_inside:
  assumes "k + n \<le> length xs"
  shows "read_bytes (pre @ xs @ rest) (length pre + k) n = Inr (take n (drop k xs))"
  using assms by (simp add: read_bytes_def)

lemma loop_at_end:
  "processEventStream_loop asserts t blob (length blob) s = Inr s"
  by (subst processEventStream_loop.simps) simp

lemma loop_step_set_input:
  assumes "length val = 4"
  shows "processEventStream_loop asserts t
           (pre @ encode_record t (SetInputRecord e sz idx val) @ rest) (length pre) s =
         (case apply_set_input asserts s e (u32_bytes idx @ val) of
            Inl err \<Rightarrow> Inl err
          | Inr s' \<Rightarrow>
              processEventStream_loop asserts t
                (pre @ encode_record t (SetInputRecord e sz idx val) @ rest) (length pre + 17) s')"
  using assms
  by (subst processEventStream_loop.simps)
    (simp add: read_bytes_def length_u32_bytes bytes_u32_u32_bytes)

lemma loop_step_other:
  assumes "ty \<noteq> t" "length payload < 256"
  shows "processEventStream_loop asserts t
           (pre @ encode_record t (OtherRecord ty e payload) @ rest) (length pre) s =
         processEventStream_loop asserts t
           (pre @ encode_record t (OtherRecord ty e payload) @ rest)
           (length pre + 9 + length payload) s"
proof -
  have "unat (of_nat (length payload) :: u8) = length payload"
    using assms(2) by (simp add: unat_of_nat)
  then show ?thesis
    using assms(1)
    by (subst processEventStream_loop.simps)
      (simp add: read_bytes_def length_u32_bytes bytes_u32_u32_bytes)
qed

lemma length_encode_record:
  "wf_record t r \<Longrightarrow>
   length (encode_record t r) =
     (case r of SetInputRecord e sz idx val \<Rightarrow> 17 | OtherRecord ty e payload \<Rightarrow> 9 + length payload)"
  by (cases r) (simp_all add: length_u32_bytes)

lemma loop_records:
  assumes "\<forall>r \<in> set recs. wf_record t r"
  shows "processEventStream_loop asserts t
           (pre @ concat (map (encode_record t) recs)) (length pre) s =
         apply_records asserts s recs"
  using assms
proof (induction recs arbitrary: pre s)
  case Nil
  show ?case using loop_at_end [of asserts t pre s] by simp
next
  case (Cons r recs)
  let ?rest = "concat (map (encode_record t) recs)"
  from Cons.prems have wf_r: "wf_record t r" and wf_rest: "\<forall>r \<in> set recs. wf_record t r"
    by simp_all
  have next_records: "processEventStream_loop asserts t (pre @ encode_record t r @ ?rest)
      (length pre + length (encode_record t r)) s' = apply_records asserts s' recs" for s'
    using Cons.IH [OF wf_rest, of "pre @ encode_record t r" s'] by simp
  show ?case
  proof (cases r)
    case (SetInputRecord e sz idx val)
    with wf_r have len: "length val = 4" by simp
    have "length (encode_record t r) = 17"
      using length_encode_record [OF wf_r] SetInputRecord by simp
    with next_records have cont: "processEventStream_loop asserts t
        (pre @ encode_record t r @ ?rest) (length pre + 17) s' = apply_records asserts s' recs"
      for s'
      by metis
    show ?thesis
      using loop_step_set_input [OF len, of asserts t pre e sz idx ?rest s] cont
      by (simp add: SetInputRecord split: sum.splits)
  next
    case (OtherRecord ty e payload)
    with wf_r have ok: "ty \<noteq> t" "length payload < 256" by simp_all
    have "length (encode_record t r) = 9 + length payload"
      using length_encode_record [OF wf_r] OtherRecord by simp
    with next_records [of s] have cont: "processEventStream_loop asserts t
        (pre @ encode_record t r @ ?rest) (length pre + 9 + length payload) s =
        apply_records asserts s recs"
      by (simp add: add.assoc)
    show ?thesis
      using loop_step_other [OF ok, of asserts pre e ?rest s] cont
      by (simp add: OtherRecord)
  qed
qed

lemma apply_set_input_ready:
  assumes "m_animator_map s e = Some i" "i < length (m_animators s)"
    and "resource (m_animators s ! i) = Some res" "c_ready res"
    and "ctx (m_animators s ! i) = Some c"
    and "unat idx < length (inputs (m_inputs res))" "length val = 4"
  shows "apply_set_input asserts s e (u32_bytes idx @ val) =
     (case in_type (inputs (m_inputs res) ! unat idx) of
        BOOL \<Rightarrow> write_input s i c (in_offset (inputs (m_inputs res) ! unat idx)) [val ! 0]
      | U32 \<Rightarrow> write_input s i c (in_offset (inputs (m_inputs res) ! unat idx)) val
      | FLOAT \<Rightarrow> write_input s i c (in_offset (inputs (m_inputs res) ! unat idx)) val
      | EMPTY \<Rightarrow> if asserts then Inl AssertionFailed else Inr s)"
proof -
  have idx: "bytes_u32 (take 4 (u32_bytes idx @ val)) = idx"
    by (simp add: length_u32_bytes bytes_u32_u32_bytes)
  have b: "(u32_bytes idx @ val) ! 4 = val ! 0"
    by (simp add: nth_append length_u32_bytes)
  have v: "take 4 (drop 4 (u32_bytes idx @ val)) = val"
    using assms(7) by (simp add: length_u32_bytes)
  show ?thesis
    using assms(1-6) unfolding apply_set_input_def idx b v Let_def
    by (simp split: InputType.splits)
qed

text \<open>
  C8. When the event stream holds the bytes of a list of records, each a "set input"
  record with a four-byte value or a record of another type with a payload of fewer
  than 256 bytes, \<open>processEventStream\<close> reads it from offset 0 to its end and has the
  effect of the records one after the other, in the order of the list: a record of
  another type has no effect and the records after it are still read in full. A "set
  input" record for an entity whose animator has a ready controller, a context and
  the slot in its declaration stores the value at the offset of the declared slot:
  one byte for a bool slot, the four bytes for an integer or a float slot.
\<close>

theorem processEventStream_in_append_order:
  assumes wf: "\<forall>r \<in> set recs. wf_record t r"
    and stream: "m_event_stream s = concat (map (encode_record t) recs)"
  shows "processEventStream asserts t s = apply_records asserts s recs \<and>
         (m_animator_map s' e = Some i \<and> i < length (m_animators s') \<and>
          resource (m_animators s' ! i) = Some res \<and> c_ready res \<and>
          ctx (m_animators s' ! i) = Some c \<and>
          unat idx < length (inputs (m_inputs res)) \<and> length val = 4 \<longrightarrow>
            apply_record asserts s' (SetInputRecord e sz idx val) =
              (case in_type (inputs (m_inputs res) ! unat idx) of
                 BOOL \<Rightarrow>
                   write_input s' i c (in_offset (inputs (m_inputs res) ! unat idx)) [val ! 0]
               | U32 \<Rightarrow> write_input s' i c (in_offset (inputs (m_inputs res) ! unat idx)) val
               | FLOAT \<Rightarrow> write_input s' i c (in_offset (inputs (m_inputs res) ! unat idx)) val
               | EMPTY \<Rightarrow> if asserts then Inl AssertionFailed else Inr s'))"
proof (intro conjI impI)
  have "processEventStream_loop asserts t ([] @ concat (map (encode_record t) recs))
      (length ([] :: u8 list)) s = apply_records asserts s recs"
    using wf by (rule loop_records)
  then show "processEventStream asserts t s = apply_records asserts s recs"
    by (simp add: processEventStream_def stream)
next
  assume "m_animator_map s' e = Some i \<and> i < length (m_animators s') \<and>
      resource (m_animators s' ! i) = Some res \<and> c_ready res \<and>
      ctx (m_animators s' ! i) = Some c \<and>
      unat idx < length (inputs (m_inputs res)) \<and> length val = 4"
  then show "apply_record asserts s' (SetInputRecord e sz idx val) =
      (case in_type (inputs (m_inputs res) ! unat idx) of
         BOOL \<Rightarrow> write_input s' i c (in_offset (inputs (m_inputs res) ! unat idx)) [val ! 0]
       | U32 \<Rightarrow> write_input s' i c (in_offset (inputs (m_inputs res) ! unat idx)) val
       | FLOAT \<Rightarrow> write_input s' i c (in_offset (inputs (m_inputs res) ! unat idx)) val
       | EMPTY \<Rightarrow> if asserts then Inl AssertionFailed else Inr s')"
    using apply_set_input_ready [of s' e i res c idx val asserts] by simp
qed

text \<open>The three records drained into the store of entity 10: the float lands in the
  bytes 0 to 3, the bool in byte 4, and the record between them changes nothing.\<close>

theorem processEventStream_in_append_order_witness:
  "list_all (wf_record 0x5EED) three_records \<and>
   processEventStream True 0x5EED
     ((input_store (replicate 8 0))
        \<lparr>m_event_stream := concat (map (encode_record 0x5EED) three_records)\<rparr>) =
   Inr ((input_store [0, 0, 0x80, 0x3F, 1, 0, 0, 0])
        \<lparr>m_event_stream := concat (map (encode_record 0x5EED) three_records)\<rparr>)"
proof -
  let ?blob = "concat (map (encode_record 0x5EED) three_records)"
  let ?s = "(input_store (replicate 8 0))\<lparr>m_event_stream := ?blob\<rparr>"
  have wf: "\<forall>r \<in> set three_records. wf_record 0x5EED r"
    by (simp add: three_records_def)
  have stream: "m_event_stream ?s = ?blob" by simp
  have rep: "replicate 8 (0::u8) = [0, 0, 0, 0, 0, 0, 0, 0]"
    by (simp add: numeral_eq_Suc)
  have i0: "bytes_u32 (take 4 (u32_bytes 0 @ v)) = 0"
    and i1: "bytes_u32 (take 4 (u32_bytes 1 @ v)) = 1" for v
    by (simp_all add: length_u32_bytes bytes_u32_u32_bytes)
  have first: "apply_set_input True (input_store (replicate 8 0)\<lparr>m_event_stream := b\<rparr>) 10
      (u32_bytes 0 @ [0, 0, 0x80, 0x3F]) =
      Inr (input_store [0, 0, 0x80, 0x3F, 0, 0, 0, 0]\<lparr>m_event_stream := b\<rparr>)" for b
    unfolding apply_set_input_def i0
    by (simp add: rep input_store_def controller2_def context8_def write_input_def
        write_bytes_def length_u32_bytes)
  have second: "apply_set_input True (input_store [0, 0, 0x80, 0x3F, 0, 0, 0, 0]
        \<lparr>m_event_stream := b\<rparr>) 10 (u32_bytes 1 @ [1, 0, 0, 0]) =
      Inr (input_store [0, 0, 0x80, 0x3F, 1, 0, 0, 0]\<lparr>m_event_stream := b\<rparr>)" for b
    unfolding apply_set_input_def i1
    by (simp add: input_store_def controller2_def context8_def write_input_def
        write_bytes_def length_u32_bytes nth_append)
  have "apply_records True ?s three_records =
      Inr ((input_store [0, 0, 0x80, 0x3F, 1, 0, 0, 0])\<lparr>m_event_stream := ?blob\<rparr>)"
    unfolding three_records_def apply_records.simps apply_record.simps first
    by (simp add: second)
  moreover have "list_all (wf_record 0x5EED) three_records"
    by (simp add: three_records_def)
  ultimately show ?thesis
    using processEventStream_in_append_order [OF wf stream, of True] by simp
qed

section \<open>Root motion\<close>

lemma apply_root_motion_transform:
  "getTransform (apply_root_motion u e root_motion) e' =
     (if e' = e then
        (getTransform u e)
          \<lparr>tr_rot := tr_rot (getTransform u e) * rot root_motion,
           tr_pos := tr_pos (getTransform u e) +
             rotate (tr_rot (getTransform u e) * rot root_motion) (pos root_motion)\<rparr>
      else getTransform u e')"
  by (simp add: apply_root_motion_def getTransform_def setTransform_def Let_def)

lemma updateAnimator_ready:
  assumes res: "resource a = Some res" "c_ready res"
    and avail: "pose_available u rs (entity a)"
    and model: "getModelInstanceModel rs (entity a) = Inr model"
    and pose: "lockPose rs (entity a) = Some pose"
  shows "updateAnimator cops qops pops u rs a dt =
     (let upd = controller_update cops res (frame_context cops a res model dt)
      in case ik_slots_loop qops (m_ik res) model 0 (inverse_kinematics a)
                (controller_getPose cops res (fst upd) (model_getRelativePose pops model pose)) of
           Inl err \<Rightarrow> Inl err
         | Inr pose3 \<Rightarrow>
             Inr (if USE_ROOT_MOTION res then apply_root_motion u (entity a) (snd upd) else u,
                  unlockPose rs (entity a) (computeAbsolute pops pose3 model),
                  (case ctx a of
                     None \<Rightarrow> a\<lparr>ctx := Some (createRuntime cops res (default_set a))\<rparr>
                   | Some c \<Rightarrow> a)\<lparr>ctx := Some (fst upd)\<rparr>))"
proof -
  from avail have has: "hasComponent u (entity a) MODEL_INSTANCE_TYPE"
    by (simp add: pose_available_def)
  from avail model have ready: "m_ready model"
    by (auto simp: pose_available_def getModelInstanceModel_def split: option.splits)
  obtain c1 rm where upd: "controller_update cops res (frame_context cops a res model dt) = (c1, rm)"
    by (cases "controller_update cops res (frame_context cops a res model dt)")
  have ent: "entity (case ctx a of
      None \<Rightarrow> a\<lparr>ctx := Some (createRuntime cops res (default_set a))\<rparr> | Some c \<Rightarrow> a) = entity a"
    by (cases "ctx a") simp_all
  show ?thesis
    using res has model ready pose upd
    by (simp add: updateAnimator_def Let_def split: sum.splits)
qed

text \<open>
  C1, as the code has it. For an Animator whose controller is ready and uses root
  motion, on an entity whose model instance is there and ready and whose pose can be
  locked, and whose IK slots are processed without a fault, \<open>updateAnimator\<close>
  returns with the entity's world transform composed with the root-motion delta:
  the new rotation is the old rotation times the delta rotation, and the new position
  is the old position plus the delta position rotated by the \<^emph>\<open>new\<close> rotation (the
  rotation is assigned first and the position is computed from it). The scale and the
  transforms of the other entities stay.
\<close>

theorem updateAnimator_root_motion:
  assumes res: "resource a = Some res" "c_ready res" "USE_ROOT_MOTION res"
    and avail: "pose_available u rs (entity a)"
    and model: "getModelInstanceModel rs (entity a) = Inr model"
    and pose: "lockPose rs (entity a) = Some pose"
    and upd: "controller_update cops res (frame_context cops a res model dt) = (c1, root_motion)"
    and ik: "ik_slots_loop qops (m_ik res) model 0 (inverse_kinematics a)
               (controller_getPose cops res c1 (model_getRelativePose pops model pose)) = Inr pose3"
  shows "\<exists>u' rs' a'. updateAnimator cops qops pops u rs a dt = Inr (u', rs', a') \<and>
           tr_rot (getTransform u' (entity a)) =
             tr_rot (getTransform u (entity a)) * rot root_motion \<and>
           tr_pos (getTransform u' (entity a)) =
             tr_pos (getTransform u (entity a)) +
               rotate (tr_rot (getTransform u (entity a)) * rot root_motion) (pos root_motion) \<and>
           tr_scale (getTransform u' (entity a)) = tr_scale (getTransform u (entity a)) \<and>
           (\<forall>e'. e' \<noteq> entity a \<longrightarrow> getTransform u' e' = getTransform u e')"
proof -
  let ?u' = "apply_root_motion u (entity a) root_motion"
  have "\<exists>rs' a'. updateAnimator cops qops pops u rs a dt = Inr (?u', rs', a')"
    using updateAnimator_ready [OF res(1,2) avail model pose, of cops qops pops dt] res(3) upd ik
    by (simp add: Let_def)
  moreover have "tr_rot (getTransform ?u' (entity a)) =
      tr_rot (getTransform u (entity a)) * rot root_motion"
    by (simp add: apply_root_motion_transform)
  moreover have "tr_pos (getTransform ?u' (entity a)) =
      tr_pos (getTransform u (entity a)) +
        rotate (tr_rot (getTransform u (entity a)) * rot root_motion) (pos root_motion)"
    by (simp add: apply_root_motion_transform)
  moreover have "tr_scale (getTransform ?u' (entity a)) = tr_scale (getTransform u (entity a))"
    by (simp add: apply_root_motion_transform)
  moreover have "\<forall>e'. e' \<noteq> entity a \<longrightarrow> getTransform ?u' e' = getTransform u e'"
    by (simp add: apply_root_motion_transform)
  ultimately show ?thesis by blast
qed

lemma half_turn_setting:
  "resource root_animator = Some root_controller" "c_ready root_controller"
  "USE_ROOT_MOTION root_controller" "entity root_animator = 7"
  "pose_available universe1 render_scene1 7"
  "getModelInstanceModel render_scene1 7 =
     Inr \<lparr>m_ready = True, m_bones = [\<lparr>parent_idx = -1\<rparr>], getBoneIndex = Map.empty\<rparr>"
  "lockPose render_scene1 7 = Some \<lparr>positions = [Vec3 0 0 0], rotations = [Quat 0 0 0 1]\<rparr>"
  "controller_update half_turn_ops res c = (c, half_turn)"
  "ik_slots_loop qops iks model 0 (inverse_kinematics root_animator) p = Inr p"
  "getTransform universe1 e = \<lparr>tr_pos = Vec3 0 0 0, tr_rot = Quat 0 0 0 1, tr_scale = 1\<rparr>"
  by (simp_all add: root_animator_def root_controller_def pose_available_def universe1_def
      render_scene1_def hasComponent_def getModelInstanceModel_def lockPose_def
      half_turn_ops_def getTransform_def numeral_eq_Suc)

lemma half_turn_values:
  "Quat 0 0 0 1 * rot half_turn = Quat 0 0 1 0"
  "Vec3 0 0 0 + rotate (Quat 0 0 1 0) (pos half_turn) = Vec3 (- 1) 0 0"
  "Vec3 0 0 0 + rotate (Quat 0 0 0 1) (pos half_turn) = Vec3 1 0 0"
  by (simp_all add: half_turn_def times_Quat_def rotate_def crossProduct_def vscale_def
      plus_Vec3_def Let_def)

text \<open>On the half-turn controller, from the identity transform: the new rotation is the
  half turn and the new position is (-1, 0, 0).\<close>

theorem updateAnimator_root_motion_witness:
  "\<exists>u' rs' a'.
     updateAnimator half_turn_ops plain_QuatOps id_PoseOps universe1 render_scene1
       root_animator (1 / 60) = Inr (u', rs', a') \<and>
     tr_rot (getTransform u' 7) = Quat 0 0 1 0 \<and>
     tr_pos (getTransform u' 7) = Vec3 (- 1) 0 0"
proof -
  let ?model = "\<lparr>m_ready = True, m_bones = [\<lparr>parent_idx = -1\<rparr>], getBoneIndex = Map.empty\<rparr>"
  let ?pose = "\<lparr>positions = [Vec3 0 0 0], rotations = [Quat 0 0 0 1]\<rparr>"
  let ?c = "frame_context half_turn_ops root_animator root_controller ?model (1 / 60)"
  have avail: "pose_available universe1 render_scene1 (entity root_animator)"
    and model: "getModelInstanceModel render_scene1 (entity root_animator) = Inr ?model"
    and pose: "lockPose render_scene1 (entity root_animator) = Some ?pose"
    by (simp_all add: half_turn_setting)
  have upd: "controller_update half_turn_ops root_controller ?c = (?c, half_turn)"
    by (rule half_turn_setting)
  have ik: "ik_slots_loop plain_QuatOps (m_ik root_controller) ?model 0
      (inverse_kinematics root_animator)
      (controller_getPose half_turn_ops root_controller ?c
         (model_getRelativePose id_PoseOps ?model ?pose)) =
      Inr (controller_getPose half_turn_ops root_controller ?c
         (model_getRelativePose id_PoseOps ?model ?pose))"
    by (rule half_turn_setting)
  from updateAnimator_root_motion [OF half_turn_setting(1-3) avail model pose upd ik]
  have "\<exists>u' rs' a'.
      updateAnimator half_turn_ops plain_QuatOps id_PoseOps universe1 render_scene1
        root_animator (1 / 60) = Inr (u', rs', a') \<and>
      tr_rot (getTransform u' 7) = Quat 0 0 1 0 \<and>
      tr_pos (getTransform u' 7) = Vec3 (- 1) 0 0 \<and>
      tr_scale (getTransform u' 7) = 1 \<and>
      (\<forall>e'. e' \<noteq> 7 \<longrightarrow> getTransform u' e' =
         \<lparr>tr_pos = Vec3 0 0 0, tr_rot = Quat 0 0 0 1, tr_scale = 1\<rparr>)"
    by (simp add: half_turn_setting half_turn_values)
  then show ?thesis by blast
qed

text \<open>The claim as written fails twice. On the half-turn controller the position after
  the update is (-1, 0, 0), where the delta position rotated by the old rotation and
  added to the old position is (1, 0, 0). And for an entity without a model instance
  the update returns before the root motion: the rotation stays the identity, where
  the old rotation composed with the delta is the half turn.\<close>

theorem root_motion_uses_new_rotation:
  "(\<exists>u' rs' a'.
      updateAnimator half_turn_ops plain_QuatOps id_PoseOps universe1 render_scene1
        root_animator (1 / 60) = Inr (u', rs', a') \<and>
      tr_pos (getTransform u' 7) = Vec3 (- 1) 0 0 \<and>
      tr_pos (getTransform universe1 7) +
        rotate (tr_rot (getTransform universe1 7)) (pos half_turn) = Vec3 1 0 0) \<and>
   (\<exists>u' rs' a'.
      updateAnimator half_turn_ops plain_QuatOps id_PoseOps universe0 render_scene1
        root_animator (1 / 60) = Inr (u', rs', a') \<and>
      tr_rot (getTransform u' 7) = Quat 0 0 0 1 \<and>
      tr_rot (getTransform universe0 7) * rot half_turn = Quat 0 0 1 0)"
proof (intro conjI)
  let ?model = "\<lparr>m_ready = True, m_bones = [\<lparr>parent_idx = -1\<rparr>], getBoneIndex = Map.empty\<rparr>"
  let ?pose = "\<lparr>positions = [Vec3 0 0 0], rotations = [Quat 0 0 0 1]\<rparr>"
  have "updateAnimator half_turn_ops plain_QuatOps id_PoseOps universe1 render_scene1
      root_animator (1 / 60) =
      Inr (apply_root_motion universe1 7 half_turn,
           unlockPose render_scene1 7 (computeAbsolute id_PoseOps
             (controller_getPose half_turn_ops root_controller
                (frame_context half_turn_ops root_animator root_controller ?model (1 / 60))
                (model_getRelativePose id_PoseOps ?model ?pose)) ?model),
           (root_animator\<lparr>ctx := Some (createRuntime half_turn_ops root_controller
               (default_set root_animator))\<rparr>)
             \<lparr>ctx := Some (frame_context half_turn_ops root_animator root_controller ?model
               (1 / 60))\<rparr>)"
    using updateAnimator_ready [of root_animator root_controller universe1 render_scene1
        ?model ?pose half_turn_ops plain_QuatOps id_PoseOps "1 / 60"]
    by (simp add: half_turn_setting Let_def) (simp add: root_animator_def)
  moreover have "tr_pos (getTransform (apply_root_motion universe1 7 half_turn) 7) =
      Vec3 (- 1) 0 0"
    by (simp add: apply_root_motion_transform half_turn_setting half_turn_values)
  moreover have "tr_pos (getTransform universe1 7) +
      rotate (tr_rot (getTransform universe1 7)) (pos half_turn) = Vec3 1 0 0"
    by (simp add: half_turn_setting half_turn_values)
  ultimately show "\<exists>u' rs' a'.
      updateAnimator half_turn_ops plain_QuatOps id_PoseOps universe1 render_scene1
        root_animator (1 / 60) = Inr (u', rs', a') \<and>
      tr_pos (getTransform u' 7) = Vec3 (- 1) 0 0 \<and>
      tr_pos (getTransform universe1 7) +
        rotate (tr_rot (getTransform universe1 7)) (pos half_turn) = Vec3 1 0 0"
    by blast
next
  have "updateAnimator half_turn_ops plain_QuatOps id_PoseOps universe0 render_scene1
      root_animator (1 / 60) =
      Inr (universe0, render_scene1,
           root_animator\<lparr>ctx := Some (createRuntime half_turn_ops root_controller 0)\<rparr>)"
    by (simp add: updateAnimator_def root_animator_def root_controller_def universe0_def
        hasComponent_def)
  moreover have "tr_rot (getTransform universe0 7) = Quat 0 0 0 1"
    by (simp add: universe0_def getTransform_def)
  moreover have "tr_rot (getTransform universe0 7) * rot half_turn = Quat 0 0 1 0"
    by (simp add: universe0_def getTransform_def half_turn_values)
  ultimately show "\<exists>u' rs' a'.
      updateAnimator half_turn_ops plain_QuatOps id_PoseOps universe0 render_scene1
        root_animator (1 / 60) = Inr (u', rs', a') \<and>
      tr_rot (getTransform u' 7) = Quat 0 0 0 1 \<and>
      tr_rot (getTransform universe0 7) * rot half_turn = Quat 0 0 1 0"
    by blast
qed

section \<open>IK slots and the zero weight\<close>

lemma ik_slots_loop_zero_weight:
  assumes "weight z = 0"
  shows "ik_slots_loop ops res_iks model idx (before @ z # after) pose =
         ik_slots_loop ops res_iks model idx before pose"
  using assms
proof (induction before arbitrary: idx pose)
  case Nil
  then show ?case by simp
next
  case (Cons ik before)
  show ?case
  proof (cases "weight ik = 0 \<or> \<not> idx < length res_iks")
    case True
    then show ?thesis by auto
  next
    case False
    then show ?thesis
      using Cons.IH [OF Cons.prems] by (simp split: sum.splits)
  qed
qed

lemma frame_context_inverse_kinematics:
  "frame_context cops (a\<lparr>inverse_kinematics := iks\<rparr>) res model dt =
   frame_context cops a res model dt"
  by (cases "ctx a") (simp_all add: frame_context_def)

lemma updateAnimator_poses:
  "(case updateAnimator cops qops pops u rs (a\<lparr>inverse_kinematics := iks\<rparr>) dt of
      Inl err \<Rightarrow> Inl err
    | Inr (u', rs', a') \<Rightarrow> Inr (u', rs')) =
   (case resource a of
      None \<Rightarrow> Inr (u, rs)
    | Some res \<Rightarrow>
        if \<not> c_ready res then Inr (u, rs)
        else if \<not> hasComponent u (entity a) MODEL_INSTANCE_TYPE then Inr (u, rs)
        else
          (case getModelInstanceModel rs (entity a) of
             Inl err \<Rightarrow> Inl err
           | Inr model \<Rightarrow>
               if \<not> m_ready model then Inr (u, rs)
               else
                 (case lockPose rs (entity a) of
                    None \<Rightarrow> Inr (u, rs)
                  | Some pose \<Rightarrow>
                      let upd = controller_update cops res (frame_context cops a res model dt)
                      in (case ik_slots_loop qops (m_ik res) model 0 iks
                                (controller_getPose cops res (fst upd)
                                   (model_getRelativePose pops model pose)) of
                            Inl err \<Rightarrow> Inl err
                          | Inr pose3 \<Rightarrow>
                              Inr (if USE_ROOT_MOTION res
                                   then apply_root_motion u (entity a) (snd upd) else u,
                                   unlockPose rs (entity a)
                                     (computeAbsolute pops pose3 model))))))"
  by (simp add: updateAnimator_def frame_context_inverse_kinematics Let_def
      split: option.splits sum.splits prod.splits)

text \<open>
  C6. When a slot has weight 0, processing the IK slots gives what processing only
  the slots before it gives: that slot and every slot after it leave the pose as it
  is, and a first slot of weight 0 leaves the pose untouched. The universe and the
  poses of the render scene after \<open>updateAnimator\<close> are the same as for an animator
  that has only the slots before the first slot of weight 0.
\<close>

theorem ik_slots_stop_at_zero_weight:
  assumes zero: "weight z = 0"
  shows "ik_slots_loop ops res_iks model idx (before @ z # after) pose =
           ik_slots_loop ops res_iks model idx before pose \<and>
         ik_slots_loop ops res_iks model idx (z # after) pose = Inr pose \<and>
         (case updateAnimator cops qops pops u rs
                 (a\<lparr>inverse_kinematics := before @ z # after\<rparr>) dt of
            Inl err \<Rightarrow> Inl err
          | Inr (u', rs', a') \<Rightarrow> Inr (u', rs')) =
         (case updateAnimator cops qops pops u rs (a\<lparr>inverse_kinematics := before\<rparr>) dt of
            Inl err \<Rightarrow> Inl err
          | Inr (u', rs', a') \<Rightarrow> Inr (u', rs'))"
proof (intro conjI)
  show "ik_slots_loop ops res_iks model idx (before @ z # after) pose =
      ik_slots_loop ops res_iks model idx before pose"
    using zero by (rule ik_slots_loop_zero_weight)
  show "ik_slots_loop ops res_iks model idx (z # after) pose = Inr pose"
    using zero by simp
  show "(case updateAnimator cops qops pops u rs
             (a\<lparr>inverse_kinematics := before @ z # after\<rparr>) dt of
        Inl err \<Rightarrow> Inl err
      | Inr (u', rs', a') \<Rightarrow> Inr (u', rs')) =
      (case updateAnimator cops qops pops u rs (a\<lparr>inverse_kinematics := before\<rparr>) dt of
        Inl err \<Rightarrow> Inl err
      | Inr (u', rs', a') \<Rightarrow> Inr (u', rs'))"
    by (simp only: updateAnimator_poses ik_slots_loop_zero_weight [OF zero])
qed

section \<open>The IK solver: clamp and iterations\<close>

lemma Vec3_components [simp]:
  "vx (a + b) = vx a + vx b" "vy (a + b) = vy a + vy b" "vz (a + b) = vz a + vz b"
  "vx (a - b) = vx a - vx b" "vy (a - b) = vy a - vy b" "vz (a - b) = vz a - vz b"
  "vx (vscale a k) = vx a * k" "vy (vscale a k) = vy a * k" "vz (vscale a k) = vz a * k"
  by (simp_all add: plus_Vec3_def minus_Vec3_def vscale_def)

lemma squaredLength_nonneg: "0 \<le> squaredLength a"
  by (simp add: squaredLength_def)

lemma vlength_nonneg: "0 \<le> vlength a"
  by (simp add: vlength_def squaredLength_nonneg)

lemma vlength_squared: "vlength a * vlength a = squaredLength a"
  by (simp add: vlength_def squaredLength_nonneg)

lemma squaredLength_vscale: "squaredLength (vscale a k) = squaredLength a * (k * k)"
  by (simp add: squaredLength_def algebra_simps)

lemma vlength_vscale:
  assumes "0 \<le> k"
  shows "vlength (vscale a k) = vlength a * k"
proof -
  have "sqrt (squaredLength a * (k * k)) = sqrt (squaredLength a) * sqrt (k * k)"
    by (rule real_sqrt_mult)
  also have "sqrt (k * k) = k"
    using assms by simp
  finally show ?thesis
    by (simp add: vlength_def squaredLength_vscale)
qed

lemma vlength_normalized:
  assumes "0 < vlength a"
  shows "vlength (normalized a) = 1"
proof -
  have "vlength (normalized a) = vlength a * (1 / vlength a)"
    unfolding normalized_def using assms by (intro vlength_vscale) simp
  with assms show ?thesis by simp
qed

lemma normalized_vscale_unit:
  assumes "vlength d = 1" "0 < k"
  shows "normalized (vscale d k) = d"
proof -
  have "vlength (vscale d k) = k"
    using assms by (simp add: vlength_vscale)
  with assms(2) show ?thesis
    by (simp add: normalized_def Vec3.expand)
qed

lemma add_diff_Vec3: "(a + b) - a = (b::Vec3)"
  by (simp add: Vec3.expand)

text \<open>A target farther from the first joint than the chain is long is replaced by
  its projection on the sphere of that radius.\<close>

lemma ik_clamp_target_unreachable:
  assumes "0 \<le> len_sum" "len_sum < vlength (tgt - p0)"
  shows "ik_clamp_target tgt p0 len_sum = p0 + vscale (normalized (tgt - p0)) len_sum"
proof -
  have "len_sum * len_sum < vlength (tgt - p0) * vlength (tgt - p0)"
    using assms by (intro mult_strict_mono') simp_all
  then show ?thesis
    by (simp add: ik_clamp_target_def vlength_squared)
qed

lemma length_forward_pass: "length (forward_pass i ts len) = length ts"
proof (induction i ts len rule: forward_pass.induct)
  case (1 i ts len)
  show ?case
  proof (cases "1 < i")
    case True
    with "1.IH" show ?thesis
      by (subst forward_pass.simps) (simp add: Let_def)
  next
    case False
    then show ?thesis by (subst forward_pass.simps) simp
  qed
qed

lemma forward_pass_keeps:
  assumes "i \<le> j \<or> j = 0"
  shows "forward_pass i ts len ! j = ts ! j"
  using assms
proof (induction i ts len rule: forward_pass.induct)
  case (1 i ts len)
  show ?case
  proof (cases "1 < i")
    case True
    let ?ts' = "ts[i - 1 := (ts ! (i - 1))\<lparr>pos := pos (ts ! i) +
        vscale (normalized (pos (ts ! (i - 1)) - pos (ts ! i))) (len ! (i - 1))\<rparr>]"
    from True "1.prems" have j: "i - 1 \<le> j \<or> j = 0" and ne: "i - 1 \<noteq> j" by auto
    have "forward_pass (i - 1) ?ts' len ! j = ?ts' ! j"
      using "1.IH" [OF True refl refl j] .
    with ne True show ?thesis
      by (subst forward_pass.simps) (simp add: Let_def)
  next
    case False
    then show ?thesis by (subst forward_pass.simps) simp
  qed
qed

lemma length_backward_pass: "length (backward_pass i n ts len) = length ts"
proof (induction i n ts len rule: backward_pass.induct)
  case (1 i n ts len)
  show ?case
  proof (cases "i < n")
    case True
    with "1.IH" show ?thesis
      by (subst backward_pass.simps) (simp add: Let_def)
  next
    case False
    then show ?thesis by (subst backward_pass.simps) simp
  qed
qed

lemma backward_pass_keeps:
  assumes "j < i"
  shows "backward_pass i n ts len ! j = ts ! j"
  using assms
proof (induction i n ts len rule: backward_pass.induct)
  case (1 i n ts len)
  show ?case
  proof (cases "i < n")
    case True
    let ?ts' = "ts[i := (ts ! i)\<lparr>pos := pos (ts ! (i - 1)) +
        vscale (normalized (pos (ts ! i) - pos (ts ! (i - 1)))) (len ! (i - 1))\<rparr>]"
    from "1.prems" have j: "j < i + 1" and ne: "i \<noteq> j" by auto
    have "backward_pass (i + 1) n ?ts' len ! j = ?ts' ! j"
      using "1.IH" [OF True refl refl j] .
    with ne True show ?thesis
      by (subst backward_pass.simps) (simp add: Let_def)
  next
    case False
    then show ?thesis by (subst backward_pass.simps) simp
  qed
qed

text \<open>The last step of the second loop puts the last joint at the last segment's length
  from the joint before it, towards where the last joint stood.\<close>

lemma backward_pass_last:
  assumes "1 \<le> i" "i < n" "length ts = n"
  shows "pos (backward_pass i n ts len ! (n - 1)) =
         pos (backward_pass i n ts len ! (n - 2)) +
           vscale (normalized (pos (ts ! (n - 1)) - pos (backward_pass i n ts len ! (n - 2))))
             (len ! (n - 2))"
  using assms
proof (induction i n ts len rule: backward_pass.induct)
  case (1 i n ts len)
  let ?ts' = "ts[i := (ts ! i)\<lparr>pos := pos (ts ! (i - 1)) +
      vscale (normalized (pos (ts ! i) - pos (ts ! (i - 1)))) (len ! (i - 1))\<rparr>]"
  have unfold: "backward_pass i n ts len = backward_pass (i + 1) n ?ts' len"
    using "1.prems"(2) by (subst backward_pass.simps) (simp add: Let_def)
  show ?case
  proof (cases "i + 1 < n")
    case True
    from "1.prems" have len': "length ?ts' = n" by simp
    have "pos (backward_pass (i + 1) n ?ts' len ! (n - 1)) =
        pos (backward_pass (i + 1) n ?ts' len ! (n - 2)) +
          vscale (normalized (pos (?ts' ! (n - 1)) -
            pos (backward_pass (i + 1) n ?ts' len ! (n - 2)))) (len ! (n - 2))"
      using "1.IH" [OF "1.prems"(2) refl refl _ True len'] by simp
    moreover from True have "?ts' ! (n - 1) = ts ! (n - 1)" by simp
    ultimately show ?thesis by (simp add: unfold)
  next
    case False
    with "1.prems" have i: "i = n - 1" and n2: "2 \<le> n" by auto
    have stop: "backward_pass (i + 1) n ?ts' len = ?ts'"
      using False by (subst backward_pass.simps) simp
    have res: "backward_pass i n ts len = ?ts'"
      by (simp only: unfold stop)
    from i n2 have n1: "n - 1 = i" and n2': "n - 2 = i - 1" by auto
    from "1.prems" have il: "i < length ts" "i - 1 \<noteq> i" by auto
    show ?thesis
      unfolding res n1 n2' using il by simp
  qed
qed

lemma ik_iteration_props:
  assumes "2 \<le> n" "length ts = n"
  shows "length (ik_iteration n tgt len ts) = n"
    and "ik_iteration n tgt len ts ! 0 = ts ! 0"
    and "pos (ik_iteration n tgt len ts ! (n - 1)) =
         pos (ik_iteration n tgt len ts ! (n - 2)) +
           vscale (normalized (tgt - pos (ik_iteration n tgt len ts ! (n - 2)))) (len ! (n - 2))"
proof -
  let ?ts1 = "ts[n - 1 := (ts ! (n - 1))\<lparr>pos := tgt\<rparr>]"
  let ?ts2 = "forward_pass (n - 1) ?ts1 len"
  have it: "ik_iteration n tgt len ts = backward_pass 1 n ?ts2 len"
    by (simp add: ik_iteration_def Let_def)
  have len2: "length ?ts2 = n"
    using assms by (simp add: length_forward_pass)
  show "length (ik_iteration n tgt len ts) = n"
    using len2 by (simp add: it length_backward_pass)
  have "?ts2 ! 0 = ?ts1 ! 0"
    by (rule forward_pass_keeps) simp
  with assms show "ik_iteration n tgt len ts ! 0 = ts ! 0"
    by (simp add: it backward_pass_keeps)
  have "?ts2 ! (n - 1) = ?ts1 ! (n - 1)"
    by (rule forward_pass_keeps) simp
  with assms have last2: "pos (?ts2 ! (n - 1)) = tgt" by simp
  from assms have "1 \<le> (1::nat)" "1 < n" by simp_all
  from backward_pass_last [OF this len2, of len] last2
  show "pos (ik_iteration n tgt len ts ! (n - 1)) =
      pos (ik_iteration n tgt len ts ! (n - 2)) +
        vscale (normalized (tgt - pos (ik_iteration n tgt len ts ! (n - 2)))) (len ! (n - 2))"
    by (simp add: it)
qed

lemma ik_iterations_Suc:
  "ik_iterations (Suc k) n tgt len ts = ik_iteration n tgt len (ik_iterations k n tgt len ts)"
  by (induction k arbitrary: ts) simp_all

lemma ik_iterations_props:
  assumes "2 \<le> n" "length ts = n"
  shows "length (ik_iterations k n tgt len ts) = n \<and> ik_iterations k n tgt len ts ! 0 = ts ! 0"
proof (induction k)
  case 0
  from assms show ?case by simp
next
  case (Suc k)
  then have l: "length (ik_iterations k n tgt len ts) = n"
    and z: "ik_iterations k n tgt len ts ! 0 = ts ! 0" by simp_all
  from ik_iteration_props(1,2) [OF assms(1) l, of tgt len] z show ?case
    by (simp only: ik_iterations_Suc)
qed

lemma foldl_add_nonneg:
  assumes "0 \<le> (a::real)" "\<forall>v \<in> set xs. 0 \<le> v"
  shows "0 \<le> foldl (+) a xs"
  using assms by (induction xs arbitrary: a) simp_all

lemma segment_lengths_sum_nonneg: "0 \<le> foldl (+) 0 (segment_lengths ts)"
  by (rule foldl_add_nonneg) (auto simp: segment_lengths_def vlength_nonneg)

lemma segment_lengths_two:
  assumes "length ts = 2"
  shows "segment_lengths ts = [vlength (pos (ts ! 1) - pos (ts ! 0))]"
  using assms by (simp add: segment_lengths_def)

lemma ik_iterations_last:
  assumes "2 \<le> n" "length ts = n" "0 < k"
  shows "pos (ik_iterations k n tgt len ts ! (n - 1)) =
         pos (ik_iterations k n tgt len ts ! (n - 2)) +
           vscale (normalized (tgt - pos (ik_iterations k n tgt len ts ! (n - 2)))) (len ! (n - 2))"
proof -
  from assms(3) obtain k' where k: "k = Suc k'"
    by (cases k) simp_all
  have l: "length (ik_iterations k' n tgt len ts) = n"
    using ik_iterations_props [OF assms(1,2)] by simp
  show ?thesis
    unfolding k ik_iterations_Suc by (rule ik_iteration_props(3) [OF assms(1) l])
qed

text \<open>
  C7, as the code has it. Let the chain have at least two joints, let at least one
  iteration run, and let the target be farther from the first joint than the
  segments are long together. Then the target is replaced by the first joint's
  position plus the normalised direction to the target times that total length.
  After the iterations the first joint is where it was, and the last joint stands at
  the last segment's length from the joint before it, in the direction of the
  clamped target. For a chain of two joints whose segment has a positive length the
  last joint is at the clamped target.
\<close>

theorem ik_solve_unreachable_target:
  assumes chain: "2 \<le> bones_count res_ik" "length ts = bones_count res_ik"
    and iters: "0 < max_iterations res_ik"
    and far: "foldl (+) 0 (segment_lengths ts) < vlength (tgt - pos (ts ! 0))"
  shows "ik_clamp_target tgt (pos (ts ! 0)) (foldl (+) 0 (segment_lengths ts)) =
           pos (ts ! 0) +
             vscale (normalized (tgt - pos (ts ! 0))) (foldl (+) 0 (segment_lengths ts)) \<and>
         pos (ik_solve res_ik tgt ts ! 0) = pos (ts ! 0) \<and>
         pos (ik_solve res_ik tgt ts ! (bones_count res_ik - 1)) =
           pos (ik_solve res_ik tgt ts ! (bones_count res_ik - 2)) +
             vscale (normalized
                 (ik_clamp_target tgt (pos (ts ! 0)) (foldl (+) 0 (segment_lengths ts)) -
                  pos (ik_solve res_ik tgt ts ! (bones_count res_ik - 2))))
               (segment_lengths ts ! (bones_count res_ik - 2)) \<and>
         (bones_count res_ik = 2 \<and> 0 < foldl (+) 0 (segment_lengths ts) \<longrightarrow>
            pos (ik_solve res_ik tgt ts ! 1) =
              ik_clamp_target tgt (pos (ts ! 0)) (foldl (+) 0 (segment_lengths ts)))"
proof -
  let ?n = "bones_count res_ik"
  let ?len = "segment_lengths ts"
  let ?sum = "foldl (+) 0 ?len"
  let ?p0 = "pos (ts ! 0)"
  let ?c = "ik_clamp_target tgt ?p0 ?sum"
  let ?R = "ik_solve res_ik tgt ts"
  let ?u = "normalized (tgt - ?p0)"
  have solve: "?R = ik_iterations (max_iterations res_ik) ?n ?c ?len ts"
    by (simp add: ik_solve_def Let_def)
  have clamp: "?c = ?p0 + vscale ?u ?sum"
    using segment_lengths_sum_nonneg far by (rule ik_clamp_target_unreachable)
  have first: "pos (?R ! 0) = ?p0"
    using ik_iterations_props [OF chain] by (simp add: solve)
  have last_joint: "pos (?R ! (?n - 1)) =
      pos (?R ! (?n - 2)) + vscale (normalized (?c - pos (?R ! (?n - 2)))) (?len ! (?n - 2))"
    unfolding solve using chain iters by (rule ik_iterations_last)
  have two: "pos (?R ! 1) = ?c" if n2: "?n = 2" and positive: "0 < ?sum"
  proof -
    from chain n2 have "length ts = 2" by simp
    then have len: "?len = [vlength (pos (ts ! 1) - ?p0)]"
      by (rule segment_lengths_two)
    then have sum: "?len ! 0 = ?sum" by simp
    have "0 \<le> ?sum" by (rule segment_lengths_sum_nonneg)
    with far have "0 < vlength (tgt - ?p0)" by linarith
    then have unit: "vlength ?u = 1" by (rule vlength_normalized)
    have "?c - ?p0 = vscale ?u ?sum"
      unfolding clamp by (rule add_diff_Vec3)
    then have "normalized (?c - ?p0) = ?u"
      using normalized_vscale_unit [OF unit positive] by simp
    moreover from last_joint n2 first
    have "pos (?R ! 1) = ?p0 + vscale (normalized (?c - ?p0)) (?len ! 0)"
      by simp
    ultimately show ?thesis
      using sum clamp by simp
  qed
  from clamp first last_joint two show ?thesis by blast
qed

section \<open>The slots and the solver on example chains\<close>

lemma sqrt_16: "sqrt 16 = 4"
proof -
  have "sqrt (4 * 4) = (4::real)" by simp
  then show ?thesis by simp
qed

lemma ik_iteration_three:
  "ik_iteration 3 c len [t0, t1, t2] =
     (let q1 = c + vscale (normalized (pos t1 - c)) (len ! 1);
          P = pos t0 + vscale (normalized (q1 - pos t0)) (len ! 0)
      in [t0, t1\<lparr>pos := P\<rparr>, t2\<lparr>pos := P + vscale (normalized (c - P)) (len ! 1)\<rparr>])"
  by (simp add: ik_iteration_def forward_pass.simps backward_pass.simps Let_def eval_nat_numeral)

lemma arm2_lengths:
  "segment_lengths arm2 = [1]" "length arm2 = 2" "pos (arm2 ! 0) = Vec3 0 0 0"
  by (simp_all add: arm2_def joint_def segment_lengths_def vlength_def squaredLength_def)

lemma arm3_lengths:
  "segment_lengths arm3 = [1, 1]" "length arm3 = 3" "pos (arm3 ! 0) = Vec3 0 0 0"
  by (simp_all add: arm3_def joint_def segment_lengths_def vlength_def squaredLength_def
      eval_nat_numeral upt_rec)

lemma far_target:
  "vlength (Vec3 0 4 0 - Vec3 0 0 0) = 4"
  "normalized (Vec3 0 4 0 - Vec3 0 0 0) = Vec3 0 1 0"
  by (simp_all add: normalized_def vlength_def squaredLength_def sqrt_16 Vec3.expand)

lemma clamp_far_target:
  "ik_clamp_target (Vec3 0 4 0) (Vec3 0 0 0) 1 = Vec3 0 1 0"
  "ik_clamp_target (Vec3 0 4 0) (Vec3 0 0 0) 2 = Vec3 0 2 0"
  by (simp_all add: ik_clamp_target_def Let_def far_target)
    (simp_all add: squaredLength_def vscale_def plus_Vec3_def)

lemma ik_solve_arm3:
  "ik_solve (chain_res 3) (Vec3 0 4 0) arm3 = ik_iteration 3 (Vec3 0 2 0) [1, 1] arm3"
  by (simp add: ik_solve_def arm3_lengths clamp_far_target chain_res_def)

lemma ik_solve_arm2:
  "ik_solve (chain_res 2) (Vec3 0 4 0) arm2 = [joint (Vec3 0 0 0), joint (Vec3 0 1 0)]"
proof -
  have n: "normalized (Vec3 0 1 0 - Vec3 0 0 0) = Vec3 0 1 0"
    by (simp add: normalized_def vlength_def squaredLength_def Vec3.expand)
  have "ik_solve (chain_res 2) (Vec3 0 4 0) arm2 = ik_iteration 2 (Vec3 0 1 0) [1] arm2"
    by (simp add: ik_solve_def arm2_lengths clamp_far_target chain_res_def)
  also have "\<dots> = [joint (Vec3 0 0 0), joint (Vec3 0 1 0)]"
    by (simp add: arm2_def joint_def ik_iteration_def forward_pass.simps backward_pass.simps
        Let_def eval_nat_numeral n)
      (simp add: vscale_def plus_Vec3_def)
  finally show ?thesis .
qed

lemma IDENTITY_laws:
  "IDENTITY * IDENTITY = IDENTITY" "conjugated IDENTITY = IDENTITY" "rotate IDENTITY v = v"
  by (simp_all add: IDENTITY_def times_Quat_def conjugated_def rotate_def crossProduct_def
      vscale_def plus_Vec3_def Let_def)

lemma to_object_space_pose2:
  "to_object_space pose2 [0, Suc 0] \<lparr>pos = 0, rot = IDENTITY\<rparr> = arm2"
  by (simp add: pose2_def arm2_def joint_def lrt_mul_def IDENTITY_laws Let_def)
    (simp add: zero_Vec3_def plus_Vec3_def)

text \<open>\<open>updateIK\<close> on the two-bone model, reaching up with weight 1: the second bone
  turns from (1, 0, 0) to (0, 1, 0).\<close>

lemma updateIK_reach_up:
  "updateIK plain_QuatOps (chain_res 2) reach_up pose2 model2 =
     Inr \<lparr>positions = [Vec3 0 0 0, Vec3 0 1 0], rotations = [IDENTITY, IDENTITY]\<rparr>"
proof -
  have idx: "those (map (getBoneIndex model2) (take 2 (bones (chain_res 2)))) = Some [0, 1]"
    by (simp add: chain_res_def model2_def)
  have cr: "compute_rotations plain_QuatOps (Suc 0) [Vec3 0 0 0, Vec3 1 0 0]
      [joint (Vec3 0 0 0), joint (Vec3 0 1 0)] = [joint (Vec3 0 0 0), joint (Vec3 0 1 0)]"
    by (simp add: plain_QuatOps_def joint_def IDENTITY_laws Let_def)
  have bs: "to_bone_space (Suc 0) [joint (Vec3 0 0 0), joint (Vec3 0 1 0)]
      [\<lparr>pos = 0, rot = IDENTITY\<rparr>, \<lparr>pos = 0, rot = IDENTITY\<rparr>] =
      ([joint (Vec3 0 0 0), joint (Vec3 0 1 0)],
       [\<lparr>pos = 0, rot = IDENTITY\<rparr>, \<lparr>pos = Vec3 0 1 0, rot = IDENTITY\<rparr>])"
    by (simp add: joint_def lrt_mul_def inverted_def IDENTITY_laws Let_def)
      (simp add: uminus_Vec3_def plus_Vec3_def)
  have n: "bones_count (chain_res 2) = 2" "length (bones (chain_res 2)) = 8"
    by (simp_all add: chain_res_def)
  have tgt: "target reach_up = Vec3 0 4 0" "weight reach_up = 1"
    by (simp_all add: reach_up_def)
  have m: "m_bones model2 = [\<lparr>parent_idx = -1\<rparr>, \<lparr>parent_idx = 0\<rparr>]"
    by (simp add: model2_def)
  have p: "positions pose2 = [Vec3 0 0 0, Vec3 1 0 0]" "rotations pose2 = [IDENTITY, IDENTITY]"
    by (simp_all add: pose2_def)
  have mp: "map pos arm2 = [Vec3 0 0 0, Vec3 1 0 0]"
    by (simp add: arm2_def joint_def)
  have rep: "replicate 2 t = [t, t]" for t :: LocalRigidTransform
    by (simp add: numeral_2_eq_2)
  show ?thesis
    unfolding updateIK_def
    apply (simp add: idx n tgt m p Let_def to_object_space_pose2 mp ik_solve_arm2 cr bs rep
        IDENTITY_laws
        del: to_object_space.simps compute_rotations.simps to_bone_space.simps blend.simps)
    apply (simp add: joint_def pose2_def plain_QuatOps_def lerp_def vscale_def plus_Vec3_def
        zero_Vec3_def)
    done
qed

text \<open>Four slots on the two-bone model: reach up, switched off, reach right, reach
  right. Only the first is processed: the second bone ends at (0, 1, 0). With the
  switched-off slot first, the pose stays.\<close>

theorem ik_slots_stop_at_zero_weight_witness:
  "weight switched_off = 0 \<and>
   ik_slots_loop plain_QuatOps (replicate 4 (chain_res 2)) model2 0
     [reach_up, switched_off, reach_right, reach_right] pose2 =
     Inr \<lparr>positions = [Vec3 0 0 0, Vec3 0 1 0], rotations = [IDENTITY, IDENTITY]\<rparr> \<and>
   ik_slots_loop plain_QuatOps (replicate 4 (chain_res 2)) model2 0
     [switched_off, reach_right, reach_right] pose2 = Inr pose2"
proof -
  have zero: "weight switched_off = 0"
    by (simp add: switched_off_def)
  have slot0: "replicate 4 (chain_res 2) ! 0 = chain_res 2" "0 < length (replicate 4 (chain_res 2))"
    by simp_all
  have one: "ik_slots_loop plain_QuatOps (replicate 4 (chain_res 2)) model2 0 [reach_up] pose2 =
      Inr \<lparr>positions = [Vec3 0 0 0, Vec3 0 1 0], rotations = [IDENTITY, IDENTITY]\<rparr>"
    using slot0 by (simp add: updateIK_reach_up reach_up_def [THEN arg_cong, of weight])
  from ik_slots_stop_at_zero_weight [OF zero, of plain_QuatOps "replicate 4 (chain_res 2)"
      model2 0 "[reach_up]" "[reach_right, reach_right]" pose2]
  have "ik_slots_loop plain_QuatOps (replicate 4 (chain_res 2)) model2 0
      [reach_up, switched_off, reach_right, reach_right] pose2 =
      ik_slots_loop plain_QuatOps (replicate 4 (chain_res 2)) model2 0 [reach_up] pose2"
    by simp
  with one have first: "ik_slots_loop plain_QuatOps (replicate 4 (chain_res 2)) model2 0
      [reach_up, switched_off, reach_right, reach_right] pose2 =
      Inr \<lparr>positions = [Vec3 0 0 0, Vec3 0 1 0], rotations = [IDENTITY, IDENTITY]\<rparr>"
    by simp
  from ik_slots_stop_at_zero_weight [OF zero, of plain_QuatOps "replicate 4 (chain_res 2)"
      model2 0 "[]" "[reach_right, reach_right]" pose2]
  have second: "ik_slots_loop plain_QuatOps (replicate 4 (chain_res 2)) model2 0
      [switched_off, reach_right, reach_right] pose2 = Inr pose2"
    by simp
  from zero first second show ?thesis by (intro conjI)
qed

text \<open>On the two-joint chain with the target (0, 4, 0): the segment is 1 long, the
  target 4 away; it is clamped to (0, 1, 0), where the solved last joint stands.\<close>

theorem ik_solve_unreachable_target_witness:
  "foldl (+) 0 (segment_lengths arm2) = 1 \<and>
   vlength (Vec3 0 4 0 - pos (arm2 ! 0)) = 4 \<and>
   ik_clamp_target (Vec3 0 4 0) (pos (arm2 ! 0)) (foldl (+) 0 (segment_lengths arm2)) =
     Vec3 0 1 0 \<and>
   pos (ik_solve (chain_res 2) (Vec3 0 4 0) arm2 ! 1) = Vec3 0 1 0"
proof -
  have sum: "foldl (+) 0 (segment_lengths arm2) = 1"
    by (simp add: arm2_lengths)
  have dist: "vlength (Vec3 0 4 0 - pos (arm2 ! 0)) = 4"
    by (simp add: arm2_lengths far_target)
  have chain: "2 \<le> bones_count (chain_res 2)" "length arm2 = bones_count (chain_res 2)"
    and iters: "0 < max_iterations (chain_res 2)"
    by (simp_all add: chain_res_def arm2_lengths)
  have far: "foldl (+) 0 (segment_lengths arm2) < vlength (Vec3 0 4 0 - pos (arm2 ! 0))"
    by (simp add: sum dist)
  have two: "bones_count (chain_res 2) = 2 \<and> 0 < foldl (+) 0 (segment_lengths arm2)"
    by (simp add: chain_res_def sum)
  from ik_solve_unreachable_target [OF chain iters far] two
  have solved: "pos (ik_solve (chain_res 2) (Vec3 0 4 0) arm2 ! 1) =
      ik_clamp_target (Vec3 0 4 0) (pos (arm2 ! 0)) (foldl (+) 0 (segment_lengths arm2))"
    by blast
  have clamp: "ik_clamp_target (Vec3 0 4 0) (pos (arm2 ! 0))
      (foldl (+) 0 (segment_lengths arm2)) = Vec3 0 1 0"
    by (simp add: arm2_lengths clamp_far_target)
  from sum dist clamp solved show ?thesis by simp
qed

text \<open>The claim as written fails on the three-joint chain with the target (0, 4, 0) and
  one iteration. The segments are 2 long together and the target is 4 away; it is
  clamped to (0, 2, 0). The joint before the last ends off the line from the first
  joint to the clamped target, so the last joint, one unit from it, is not at the
  clamped target.\<close>

theorem ik_last_joint_misses_clamped_target:
  "foldl (+) 0 (segment_lengths arm3) < vlength (Vec3 0 4 0 - pos (arm3 ! 0)) \<and>
   pos (ik_solve (chain_res 3) (Vec3 0 4 0) arm3 ! 2) \<noteq>
     ik_clamp_target (Vec3 0 4 0) (pos (arm3 ! 0)) (foldl (+) 0 (segment_lengths arm3))"
proof
  show "foldl (+) 0 (segment_lengths arm3) < vlength (Vec3 0 4 0 - pos (arm3 ! 0))"
    by (simp add: arm3_lengths far_target)
next
  let ?c = "Vec3 0 2 0"
  define q1 where "q1 = ?c + vscale (normalized (Vec3 1 0 0 - ?c)) 1"
  define P where "P = Vec3 0 0 0 + vscale (normalized (q1 - Vec3 0 0 0)) 1"
  have last_joint: "pos (ik_solve (chain_res 3) (Vec3 0 4 0) arm3 ! 2) =
      P + vscale (normalized (?c - P)) 1"
    by (simp only: ik_solve_arm3)
      (simp add: arm3_def joint_def ik_iteration_three Let_def q1_def P_def)
  have q1x: "0 < vx q1"
    by (simp add: q1_def normalized_def vlength_def squaredLength_def)
  have q1len: "0 < vlength (q1 - Vec3 0 0 0)"
  proof -
    have "0 < vx q1 * vx q1" using q1x by simp
    then have "0 < squaredLength (q1 - Vec3 0 0 0)"
      by (simp add: squaredLength_def add_pos_nonneg)
    then show ?thesis by (simp add: vlength_def)
  qed
  have Px: "0 < vx P"
    using q1x q1len by (simp add: P_def normalized_def)
  have Punit: "squaredLength P = 1"
  proof -
    have "vlength (normalized (q1 - Vec3 0 0 0)) = 1"
      using q1len by (rule vlength_normalized)
    moreover have "P = normalized (q1 - Vec3 0 0 0)"
      by (simp add: P_def Vec3.expand)
    ultimately have "vlength P = 1" by simp
    then show ?thesis using vlength_squared [of P] by simp
  qed
  have "P + vscale (normalized (?c - P)) 1 \<noteq> ?c"
  proof
    assume eq: "P + vscale (normalized (?c - P)) 1 = ?c"
    let ?d = "vlength (?c - P)"
    have dpos: "0 < ?d"
    proof -
      have "0 < vx (?c - P) * vx (?c - P)" using Px by simp
      then have "0 < squaredLength (?c - P)"
        by (simp add: squaredLength_def add_pos_nonneg)
      then show ?thesis by (simp add: vlength_def)
    qed
    from eq have "vx (P + vscale (normalized (?c - P)) 1) = vx ?c" by simp
    then have "vx P * (1 - 1 / ?d) = 0"
      by (simp add: normalized_def algebra_simps)
    with Px have "?d = 1" using dpos by (simp add: field_simps)
    then have "squaredLength (?c - P) = 1"
      using vlength_squared [of "?c - P"] by simp
    then have "squaredLength P + 4 - 4 * vy P = 1"
      by (simp add: squaredLength_def algebra_simps)
    with Punit have y: "vy P = 1" by simp
    from Punit y have "vx P * vx P + vz P * vz P = 0"
      by (simp add: squaredLength_def)
    then have "vx P * vx P = 0"
      by (simp add: sum_squares_eq_zero_iff)
    with Px show False by simp
  qed
  with last_joint show "pos (ik_solve (chain_res 3) (Vec3 0 4 0) arm3 ! 2) \<noteq>
      ik_clamp_target (Vec3 0 4 0) (pos (arm3 ! 0)) (foldl (+) 0 (segment_lengths arm3))"
    by (simp add: arm3_lengths clamp_far_target)
qed

end
